theory Spec2Isabelle
  imports Complex_Main "HOL-Library.AList"
begin

section \<open>Python string primitives used by process\_bags.py\<close>

text \<open>
  Strings are HOL strings. \<open>split_on\<close> is \<^verbatim>\<open>str.split(sep)\<close> for a one-character
  separator: the empty string splits into one empty segment, and every separator
  starts a new segment.
\<close>

fun split_on :: "char \<Rightarrow> string \<Rightarrow> string list" where
  "split_on sep [] = [[]]"
| "split_on sep (c # cs) =
     (if c = sep then [] # split_on sep cs
      else (case split_on sep cs of
              [] \<Rightarrow> [[c]]
            | w # ws \<Rightarrow> (c # w) # ws))"

text \<open>\<^verbatim>\<open>str.rstrip(chars)\<close>: drop the longest suffix made of characters satisfying \<open>P\<close>.\<close>

definition rstrip_where :: "(char \<Rightarrow> bool) \<Rightarrow> string \<Rightarrow> string" where
  "rstrip_where P s = rev (dropWhile P (rev s))"

text \<open>
  The characters \<^verbatim>\<open>str.rstrip()\<close> (no argument) removes, for code points below 256:
  tab to carriage return, the four separators 28 to 31, the space, NEL and the
  no-break space.
\<close>

definition is_space :: "char \<Rightarrow> bool" where
  "is_space c = (let n = (of_char c :: nat) in
     (9 \<le> n \<and> n \<le> 13) \<or> (28 \<le> n \<and> n \<le> 32) \<or> n = 133 \<or> n = 160)"

definition rstrip :: "string \<Rightarrow> string" where
  "rstrip s = rstrip_where is_space s"

text \<open>Decimal rendering of integers, as an f-string renders an \<^verbatim>\<open>int\<close>.\<close>

definition digit_char :: "nat \<Rightarrow> char" where
  "digit_char d = ''0123456789'' ! d"

fun str_nat :: "nat \<Rightarrow> string" where
  "str_nat n = (if n < 10 then [digit_char n] else str_nat (n div 10) @ [digit_char (n mod 10)])"

declare str_nat.simps [simp del]

definition str_int :: "int \<Rightarrow> string" where
  "str_int i = (if i < 0 then CHR ''-'' # str_nat (nat (- i)) else str_nat (nat i))"

section \<open>The vehicle catalog\<close>

text \<open>
  \<^verbatim>\<open>vehicle_info\<close>: vehicle type to (unique message type, known vehicle names), in
  the dictionary's insertion order.
\<close>

definition vehicle_info :: "(string \<times> (string \<times> string list)) list" where
  "vehicle_info =
     [(''remus'', (''ros_remus/Status'', [''shadow'', ''casper'', ''bullwinkle''])),
      (''buoy'', (''ros_gwb/ScheduleStatus'', [''sugar'', ''skipper'', ''shrew'']))]"

section \<open>The naming validator\<close>

text \<open>
  \<^verbatim>\<open>is_rename_necessary\<close>. The two log calls write to the log sink only and are left
  out. The indexing \<open>components ! 0\<close> and \<open>components ! 1\<close> is guarded by the length
  test, as in the source.
\<close>

definition is_rename_necessary :: "string \<Rightarrow> bool" where
  "is_rename_necessary filename =
     (let components = split_on CHR ''_'' filename in
      if 2 < length components \<and> length components < 5 then
        (case map_of vehicle_info (components ! 0) of
           None \<Rightarrow> True
         | Some v_info \<Rightarrow> if components ! 1 \<in> set (snd v_info) then False else True)
      else True)"

section \<open>Recordings, paths and the file system\<close>

text \<open>
  Exceptions are values. Only the kinds the pipeline can meet are listed.
\<close>

datatype exn =
    FileNotFoundError
  | ROSBagException
  | IndexError
  | ValueError
  | AttributeError
  | TypeError
  | UnboundLocalError
  | IOError
  | RequestException

text \<open>
  A message stamp is \<^verbatim>\<open>genpy.Time\<close>: whole seconds and nanoseconds. Epoch values that
  Python holds as floats are the rationals they denote.
\<close>

record stamp =
  secs :: int
  nsecs :: int

definition to_sec :: "stamp \<Rightarrow> rat" where
  "to_sec t = of_int (secs t) + of_int (nsecs t) / 1000000000"

text \<open>
  A Python float as a sample carries it: a finite value (the rational it denotes), an
  infinity, or NaN. \<open>py_gt\<close> is the comparison \<^verbatim>\<open>a > b\<close>, false whenever NaN takes
  part.
\<close>

datatype pyfloat = Finite rat | PosInf | NegInf | NaN

fun py_gt :: "pyfloat \<Rightarrow> pyfloat \<Rightarrow> bool" where
  "py_gt NaN b = False"
| "py_gt a NaN = False"
| "py_gt (Finite x) (Finite y) = (y < x)"
| "py_gt PosInf PosInf = False"
| "py_gt PosInf b = True"
| "py_gt a PosInf = False"
| "py_gt NegInf b = False"
| "py_gt (Finite x) NegInf = True"

text \<open>
  The fields of a sample on the status channel that \<^verbatim>\<open>generate_tags\<close> reads. A message
  of another kind has none of them, so reading one raises \<^verbatim>\<open>AttributeError\<close>.
\<close>

record status_msg =
  in_mission :: bool
  depth :: pyfloat
  mission_mode :: int

datatype msg = Status status_msg | StringMsg string | OtherMsg

text \<open>
  The content of a recording as the pipeline reads it: what \<^verbatim>\<open>get_start_time\<close> and
  \<^verbatim>\<open>get_end_time\<close> report, the keys of \<^verbatim>\<open>msg_types\<close>, and the records as
  (topic, message, stamp) in the order in which \<^verbatim>\<open>read_messages\<close> yields them. The two
  times are reported only for a recording that holds a record: on a recording with no
  record at all the library raises \<^verbatim>\<open>ROSBagException\<close> instead.
\<close>

record recording =
  start_time :: rat
  end_time :: rat
  msg_types :: "string list"
  messages :: "(string \<times> msg \<times> stamp) list"

text \<open>A file with the extension of a recording need not be one the library can open.\<close>

datatype bagfile = Unreadable | Recording recording

text \<open>A path is its \<^verbatim>\<open>parts\<close>; \<open>path_name\<close> is \<^verbatim>\<open>Path.name\<close>, \<open>parent\<close> is \<^verbatim>\<open>Path.parent\<close>.\<close>

type_synonym path = "string list"

definition path_name :: "path \<Rightarrow> string" where
  "path_name p = (if p = [] then [] else last p)"

definition parent :: "path \<Rightarrow> path" where
  "parent p = butlast p"

text \<open>An open \<^verbatim>\<open>Bag\<close>: the path it was opened with and the content read from it.\<close>

record bag =
  filename :: path
  content :: recording

text \<open>\<^verbatim>\<open>bag.get_start_time()\<close> and \<^verbatim>\<open>bag.get_end_time()\<close>.\<close>

definition get_start_time :: "bag \<Rightarrow> exn + rat" where
  "get_start_time b =
     (if messages (content b) = [] then Inl ROSBagException else Inr (start_time (content b)))"

definition get_end_time :: "bag \<Rightarrow> exn + rat" where
  "get_end_time b =
     (if messages (content b) = [] then Inl ROSBagException else Inr (end_time (content b)))"

text \<open>
  \<^verbatim>\<open>time.struct_time\<close>; iterating it yields its nine fields in this order.
\<close>

record struct_time =
  tm_year :: int
  tm_mon :: int
  tm_mday :: int
  tm_hour :: int
  tm_min :: int
  tm_sec :: int
  tm_wday :: int
  tm_yday :: int
  tm_isdst :: int

definition struct_time_fields :: "struct_time \<Rightarrow> int list" where
  "struct_time_fields st =
     [tm_year st, tm_mon st, tm_mday st, tm_hour st, tm_min st, tm_sec st,
      tm_wday st, tm_yday st, tm_isdst st]"

text \<open>Values a tag can hold: text, a flag, a number, a set of mode codes.\<close>

datatype tag_value = TStr string | TBool bool | TNum pyfloat | TSet "int set"

type_synonym tags = "(string \<times> tag_value) list"

text \<open>
  What the run takes from outside the repository: the working directory and the
  recursive flag, the local clock's breakdown of an epoch value, the token retrieval,
  the answer of the archive to a POST (an exception of the transport, or a status
  code), whether the backing store of a bag refuses to take the buffered records when
  they are flushed, and how an f-string renders a number and a set.
\<close>

record env =
  cwd :: path
  is_recursive :: bool
  localtime :: "rat \<Rightarrow> struct_time"
  fetch_token :: "exn + string"
  post :: "string \<Rightarrow> path \<Rightarrow> bagfile \<Rightarrow> exn + nat"
  flush_error :: "path \<Rightarrow> exn option"
  str_num :: "pyfloat \<Rightarrow> string"
  str_set :: "int set \<Rightarrow> string"

text \<open>What the driver writes to the log, one constructor per message of \<^verbatim>\<open>process_bags\<close>.\<close>

datatype log_entry =
    LogProcessing string nat nat
  | LogTagError exn
  | LogUploadOk
  | LogPostFailed string
  | LogSkipUnsafe string
  | LogIgnoring string path

datatype event =
    Log log_entry
  | Renamed path path
  | OpenedAppend path
  | Wrote path string string stamp
  | Closed path
  | Posted path
  | Mkdir path

text \<open>
  The state of a run: the files (an association list from path to file, directories
  implicit) and the effects so far, oldest first. \<open>Wrote\<close> is a call of
  \<^verbatim>\<open>bag.write\<close>: the record is handed to the library, which buffers it and puts it
  into the file when the bag is closed.
\<close>

record world =
  fs :: "(path \<times> bagfile) list"
  trace :: "event list"

definition emit :: "event \<Rightarrow> world \<Rightarrow> world" where
  "emit ev w = w\<lparr>trace := trace w @ [ev]\<rparr>"

text \<open>\<^verbatim>\<open>Bag(path)\<close>: a missing file and a file that is no recording both raise.\<close>

definition open_bag :: "(path \<times> bagfile) list \<Rightarrow> path \<Rightarrow> exn + bag" where
  "open_bag files p =
     (case map_of files p of
        None \<Rightarrow> Inl FileNotFoundError
      | Some Unreadable \<Rightarrow> Inl ROSBagException
      | Some (Recording r) \<Rightarrow> Inr \<lparr>filename = p, content = r\<rparr>)"

text \<open>
  \<^verbatim>\<open>Path.rename\<close>: the source must exist; an existing target is replaced.
\<close>

definition rename_file :: "path \<Rightarrow> path \<Rightarrow> world \<Rightarrow> exn + world" where
  "rename_file src dst w =
     (case map_of (fs w) src of
        None \<Rightarrow> Inl FileNotFoundError
      | Some f \<Rightarrow>
          Inr (emit (Renamed src dst)
                 (w\<lparr>fs := AList.update dst f (AList.delete src (fs w))\<rparr>)))"

section \<open>The timestamp token\<close>

text \<open>
  \<^verbatim>\<open>identify_date\<close>. The start time is read first, which raises on a recording with
  no record. The loop appends each field followed by a dash and breaks after the
  iteration whose index is 6; the trailing dashes are then stripped.
\<close>

fun identify_date_loop :: "nat \<Rightarrow> int list \<Rightarrow> string \<Rightarrow> string" where
  "identify_date_loop i [] date = date"
| "identify_date_loop i (val # vals) date =
     (let date' = date @ str_int val @ ''-''
      in if i = 6 then date' else identify_date_loop (Suc i) vals date')"

definition identify_date :: "env \<Rightarrow> bag \<Rightarrow> exn + string" where
  "identify_date e b =
     (case get_start_time b of
        Inl x \<Rightarrow> Inl x
      | Inr t \<Rightarrow>
          Inr (rstrip_where (\<lambda>c. c = CHR ''-'')
                 (identify_date_loop 0 (struct_time_fields (localtime e t)) [])))"

section \<open>The source identifier\<close>

text \<open>
  \<^verbatim>\<open>identify_source\<close>. The loop state is the pair of \<^verbatim>\<open>source\<close> (unbound until a
  strategy assigns it) and \<^verbatim>\<open>status\<close>. Neither loop breaks, so the last match wins.
\<close>

definition directory_step :: "string \<Rightarrow> string option \<times> nat \<Rightarrow> string \<times> (string \<times> string list) \<Rightarrow> string option \<times> nat" where
  "directory_step parent_folder st entry =
     (if parent_folder \<in> set (snd (snd entry))
      then (Some (fst entry @ ''_'' @ parent_folder), 1)
      else st)"

definition directory_strategy :: "path \<Rightarrow> string option \<times> nat \<Rightarrow> string option \<times> nat" where
  "directory_strategy parts st =
     foldl (\<lambda>st parent_folder. foldl (directory_step parent_folder) st vehicle_info) st parts"

definition content_step :: "string list \<Rightarrow> string option \<times> nat \<Rightarrow> string \<times> (string \<times> string list) \<Rightarrow> string option \<times> nat" where
  "content_step types st entry =
     (if fst (snd entry) \<in> set types
      then (Some (fst entry @ ''_unknownname''), 2)
      else st)"

definition identify_source :: "(path \<times> bagfile) list \<Rightarrow> path \<Rightarrow> exn + (string \<times> nat)" where
  "identify_source files p =
     (let st1 = directory_strategy p (None, 0) in
      case (if snd st1 = 0
            then (case open_bag files p of
                    Inl e \<Rightarrow> Inl e
                  | Inr b \<Rightarrow> Inr (foldl (content_step (msg_types (content b))) st1 vehicle_info))
            else Inr st1) of
        Inl e \<Rightarrow> Inl e
      | Inr st2 \<Rightarrow>
          (let st3 = (if snd st2 = 0 then (Some ''unknowntype_unknownname'', snd st2) else st2)
           in case fst st3 of
                None \<Rightarrow> Inl UnboundLocalError
              | Some source \<Rightarrow> Inr (source, snd st3)))"

section \<open>The renamer\<close>

text \<open>
  \<^verbatim>\<open>standard_rename\<close>. The verdict starts as true and is cleared for status 0 and
  status 2. The file is renamed whatever the verdict. Nothing here catches an
  exception of the identifier, of the library or of \<open>identify_date\<close>.
\<close>

definition standard_rename :: "env \<Rightarrow> path \<Rightarrow> world \<Rightarrow> (exn + bool \<times> path) \<times> world" where
  "standard_rename e p w =
     (if is_rename_necessary (path_name p) then
        (case identify_source (fs w) p of
           Inl x \<Rightarrow> (Inl x, w)
         | Inr (source, status) \<Rightarrow>
             (case open_bag (fs w) p of
                Inl x \<Rightarrow> (Inl x, w)
              | Inr b \<Rightarrow>
                  (case identify_date e b of
                     Inl x \<Rightarrow> (Inl x, w)
                   | Inr date \<Rightarrow>
                       (let built_name = source @ ''_'' @ date @ ''.bag'';
                            to_upload = (if status = 0 then False
                                         else if status = 1 then True
                                         else if status = 2 then False
                                         else True);
                            newpath = parent p @ [built_name]
                        in case rename_file p newpath w of
                             Inl x \<Rightarrow> (Inl x, w)
                           | Inr w' \<Rightarrow> (Inr (to_upload, newpath), w')))))
      else (Inr (True, p), w))"

section \<open>The tag generator\<close>

text \<open>
  \<^verbatim>\<open>round(x, 2)\<close> on the value a finite float denotes: the nearest hundredth, a tie
  going to the even one. The result is that hundredth itself. An infinity and NaN
  round to themselves.
\<close>

definition round_half_even :: "rat \<Rightarrow> int" where
  "round_half_even y =
     (let n = \<lfloor>y\<rfloor>; r = y - of_int n
      in if r < 1 / 2 then n
         else if 1 / 2 < r then n + 1
         else if even n then n else n + 1)"

definition round2 :: "rat \<Rightarrow> rat" where
  "round2 x = of_int (round_half_even (x * 100)) / 100"

definition py_round2 :: "pyfloat \<Rightarrow> pyfloat" where
  "py_round2 v = (case v of Finite x \<Rightarrow> Finite (round2 x) | _ \<Rightarrow> v)"

text \<open>
  \<^verbatim>\<open>bag.read_messages(topics=topic)\<close>: the messages of one topic, in the order of the
  recording's list.
\<close>

definition read_messages :: "bag \<Rightarrow> string \<Rightarrow> msg list" where
  "read_messages b topic =
     map (\<lambda>(t, m, s). m) (filter (\<lambda>(t, m, s). t = topic) (messages (content b)))"

text \<open>The first loop of the remus branch: one iteration at most, because of the break.\<close>

definition first_status :: "msg list \<Rightarrow> tags \<Rightarrow> exn + tags" where
  "first_status ms tgs =
     (case ms of
        [] \<Rightarrow> Inr tgs
      | m # _ \<Rightarrow>
          (case m of
             Status s \<Rightarrow> Inr (AList.update ''mission state'' (TBool (in_mission s)) tgs)
           | _ \<Rightarrow> Inl AttributeError))"

text \<open>The second loop: every sample adds its rounded depth and its mode.\<close>

fun scan_status :: "msg list \<Rightarrow> pyfloat list \<times> int list \<Rightarrow> exn + pyfloat list \<times> int list" where
  "scan_status [] acc = Inr acc"
| "scan_status (m # ms) (depth_list, mission_modes) =
     (case m of
        Status s \<Rightarrow>
          scan_status ms (depth_list @ [py_round2 (depth s)], mission_modes @ [mission_mode s])
      | _ \<Rightarrow> Inl AttributeError)"

text \<open>
  \<^verbatim>\<open>max\<close> of a list: \<^verbatim>\<open>ValueError\<close> on the empty list; otherwise the first item is
  kept until a later item compares greater than it.
\<close>

definition py_max_step :: "pyfloat \<Rightarrow> pyfloat \<Rightarrow> pyfloat" where
  "py_max_step max_val item = (if py_gt item max_val then item else max_val)"

definition py_max :: "pyfloat list \<Rightarrow> exn + pyfloat" where
  "py_max xs = (case xs of [] \<Rightarrow> Inl ValueError | x # rest \<Rightarrow> Inr (foldl py_max_step x rest))"

text \<open>
  \<^verbatim>\<open>generate_tags\<close>. The name of the recording is what follows the last slash of the
  path's string, which is the last part of a path of two or more parts and does not
  exist (\<^verbatim>\<open>IndexError\<close>) for a shorter one. Assignments to the dictionary are
  \<open>AList.update\<close>: a new key goes to the end, an old key keeps its place. An
  exception of \<open>identify_date\<close> leaves the function.
\<close>

definition generate_tags :: "env \<Rightarrow> bag \<Rightarrow> exn + tags" where
  "generate_tags e b =
     (if length (filename b) < 2 then Inl IndexError
      else
        (let bagname = last (filename b);
             bag_name_list = split_on CHR ''_'' bagname
         in if length bag_name_list < 2 then Inl IndexError
            else
              (let tags0 = AList.update ''vehicle'' (TStr (bag_name_list ! 0)) [];
                   tags1 = AList.update ''name'' (TStr (bag_name_list ! 1)) tags0
               in case identify_date e b of
                    Inl x \<Rightarrow> Inl x
                  | Inr date \<Rightarrow>
                      (let tags2 = AList.update ''date/time'' (TStr date) tags1;
                           tags3 = AList.update ''year'' (TStr (take 4 date)) tags2
                       in if bag_name_list ! 0 = ''remus'' then
                            (case first_status (read_messages b ''/status'') tags3 of
                               Inl x \<Rightarrow> Inl x
                             | Inr tags4 \<Rightarrow>
                                 (case scan_status (read_messages b ''/status'') ([], []) of
                                    Inl x \<Rightarrow> Inl x
                                  | Inr (depth_list, mission_modes) \<Rightarrow>
                                      (case py_max depth_list of
                                         Inl x \<Rightarrow> Inl x
                                       | Inr m \<Rightarrow>
                                           Inr (AList.update ''mission modes''
                                                  (TSet (set mission_modes))
                                                  (AList.update ''max depth'' (TNum m) tags4)))))
                          else Inr tags3))))"

section \<open>The tag publisher\<close>

definition format_value :: "env \<Rightarrow> tag_value \<Rightarrow> string" where
  "format_value e v =
     (case v of
        TStr s \<Rightarrow> s
      | TBool f \<Rightarrow> (if f then ''True'' else ''False'')
      | TNum r \<Rightarrow> str_num e r
      | TSet S \<Rightarrow> str_set e S)"

definition newline :: char where
  "newline = CHR 0x0A"

definition tag_data :: "env \<Rightarrow> tags \<Rightarrow> string" where
  "tag_data e tgs =
     rstrip (foldl (\<lambda>data (key, val). data @ key @ '':'' @ format_value e val @ [newline]) [] tgs)"

text \<open>\<^verbatim>\<open>divmod(x, 1)\<close> on a float: the floor and the fractional part, both exact.\<close>

definition divmod1 :: "rat \<Rightarrow> rat \<times> rat" where
  "divmod1 x = (of_int \<lfloor>x\<rfloor>, x - of_int \<lfloor>x\<rfloor>)"

text \<open>\<^verbatim>\<open>int(x)\<close> on a float truncates towards zero.\<close>

definition py_int :: "rat \<Rightarrow> int" where
  "py_int x = (if 0 \<le> x then \<lfloor>x\<rfloor> else \<lceil>x\<rceil>)"

text \<open>
  The constructor \<^verbatim>\<open>genpy.Time(secs, nsecs)\<close> called with integral seconds: both
  arguments go through \<^verbatim>\<open>int\<close>, the nanoseconds are brought into one second's range,
  and a negative time is refused.
\<close>

definition Time :: "int \<Rightarrow> rat \<Rightarrow> exn + stamp" where
  "Time s n =
     (let ns = py_int n;
          secs_over = ns div 1000000000;
          s' = s + secs_over;
          ns' = ns - secs_over * 1000000000
      in if s' < 0 then Inl TypeError else Inr \<lparr>secs = s', nsecs = ns'\<rparr>)"

text \<open>
  \<^verbatim>\<open>bag.write(topic, String(data), t)\<close>: the record is handed to the library, which
  buffers it. Nothing reaches the file before the bag is closed.
\<close>

definition bag_write :: "bag \<Rightarrow> string \<Rightarrow> string \<Rightarrow> stamp \<Rightarrow> world \<Rightarrow> world" where
  "bag_write b topic data t w = emit (Wrote (filename b) topic data t) w"

text \<open>
  \<^verbatim>\<open>tag_this_bag\<close>: the text of the tags is built first, then the end time is read
  and split, then the record is written.
\<close>

definition tag_this_bag :: "env \<Rightarrow> bag \<Rightarrow> tags \<Rightarrow> world \<Rightarrow> exn + world" where
  "tag_this_bag e b tgs w =
     (let data = tag_data e tgs
      in case get_end_time b of
           Inl x \<Rightarrow> Inl x
         | Inr end_stamp \<Rightarrow>
             (let (msg_sec, msg_nsec) = divmod1 end_stamp
              in case Time (py_int msg_sec) msg_nsec of
                   Inl x \<Rightarrow> Inl x
                 | Inr t \<Rightarrow> Inr (bag_write b ''/metadata'' data t w)))"

text \<open>
  The records a bag still has in its buffer: those written to it since it was opened,
  read off the trace.
\<close>

definition pending_step :: "path \<Rightarrow> (string \<times> msg \<times> stamp) list \<Rightarrow> event \<Rightarrow> (string \<times> msg \<times> stamp) list" where
  "pending_step p acc ev =
     (case ev of
        OpenedAppend q \<Rightarrow> (if q = p then [] else acc)
      | Closed q \<Rightarrow> (if q = p then [] else acc)
      | Wrote q topic data t \<Rightarrow> (if q = p then acc @ [(topic, StringMsg data, t)] else acc)
      | _ \<Rightarrow> acc)"

definition pending :: "path \<Rightarrow> event list \<Rightarrow> (string \<times> msg \<times> stamp) list" where
  "pending p evs = foldl (pending_step p) [] evs"

text \<open>
  The content of the file once buffered records have been flushed: they form a new
  last chunk, so the reported end time becomes the largest stamp among them; the
  start time is that of the first chunk and changes only if there was none.
\<close>

definition stamp_secs :: "string \<times> msg \<times> stamp \<Rightarrow> rat" where
  "stamp_secs rc = to_sec (snd (snd rc))"

definition flushed :: "recording \<Rightarrow> (string \<times> msg \<times> stamp) list \<Rightarrow> recording" where
  "flushed r recs =
     (case recs of
        [] \<Rightarrow> r
      | rc # rest \<Rightarrow>
          r\<lparr>start_time := (if messages r = []
                           then foldl min (stamp_secs rc) (map stamp_secs rest)
                           else start_time r),
            end_time := foldl max (stamp_secs rc) (map stamp_secs rest),
            msg_types := List.insert ''std_msgs/String'' (msg_types r),
            messages := messages r @ recs\<rparr>)"

text \<open>
  \<^verbatim>\<open>bag.close()\<close>: the buffered records are flushed into the file, which the store
  may refuse; the bag then stays open with its buffer. With an empty buffer the close
  succeeds.
\<close>

definition bag_close :: "env \<Rightarrow> bag \<Rightarrow> world \<Rightarrow> (exn + unit) \<times> world" where
  "bag_close e b w =
     (let recs = pending (filename b) (trace w)
      in if recs = [] then (Inr (), emit (Closed (filename b)) w)
         else
           (case flush_error e (filename b) of
              Some x \<Rightarrow> (Inl x, w)
            | None \<Rightarrow>
                (Inr (),
                 emit (Closed (filename b))
                   (w\<lparr>fs := AList.update (filename b) (Recording (flushed (content b) recs))
                              (fs w)\<rparr>))))"

section \<open>The upload\<close>

text \<open>
  \<^verbatim>\<open>prep_and_post\<close>: the file is opened for reading, the POST is made, and the status
  code comes back as text. An exception of the transport is not caught here.
\<close>

definition prep_and_post :: "env \<Rightarrow> path \<Rightarrow> string \<Rightarrow> world \<Rightarrow> (exn + string) \<times> world" where
  "prep_and_post e filepath csrf w =
     (case map_of (fs w) filepath of
        None \<Rightarrow> (Inl FileNotFoundError, w)
      | Some f \<Rightarrow>
          (case post e csrf filepath f of
             Inl x \<Rightarrow> (Inl x, emit (Posted filepath) w)
           | Inr code \<Rightarrow> (Inr (str_nat code), emit (Posted filepath) w)))"

section \<open>The upload driver\<close>

definition post_folder :: string where
  "post_folder = ''uploaded''"

text \<open>
  The body of the \<^verbatim>\<open>try\<close> statement up to the first exception: generate the tags,
  publish them (\<open>tag_block\<close>), close the bag. An exception comes with the state in
  which it was raised.
\<close>

definition tag_block :: "env \<Rightarrow> bag \<Rightarrow> world \<Rightarrow> exn + world" where
  "tag_block e b w =
     (case generate_tags e b of
        Inl x \<Rightarrow> Inl x
      | Inr tgs \<Rightarrow> tag_this_bag e b tgs w)"

definition try_body :: "env \<Rightarrow> bag \<Rightarrow> world \<Rightarrow> (exn + unit) \<times> world" where
  "try_body e b w =
     (case tag_block e b w of
        Inl x \<Rightarrow> (Inl x, w)
      | Inr w' \<Rightarrow> bag_close e b w')"

text \<open>
  One iteration of the loop of \<^verbatim>\<open>process_bags\<close>. \<open>Inl\<close> is an exception that leaves
  the loop; \<open>Inr ()\<close> is the end of the iteration, by falling through or by
  \<^verbatim>\<open>continue\<close>. The guard reads \<^verbatim>\<open>bagpath.parts[-1]\<close>, the last part of the path
  (\<^verbatim>\<open>IndexError\<close> on a path with no parts). The handler of the \<^verbatim>\<open>try\<close> statement
  logs the exception and closes the bag again; an exception of that second close is
  caught by nothing.
\<close>

definition process_bag :: "env \<Rightarrow> string \<Rightarrow> nat \<Rightarrow> nat \<Rightarrow> path \<Rightarrow> world \<Rightarrow> (exn + unit) \<times> world" where
  "process_bag e csrf i net bagpath w0 =
     (let w = emit (Log (LogProcessing (path_name bagpath) i net)) w0
      in if bagpath = [] then (Inl IndexError, w)
         else if last bagpath \<noteq> post_folder then
           (case standard_rename e bagpath w of
              (Inl x, w1) \<Rightarrow> (Inl x, w1)
            | (Inr (rename_results, newpath), w1) \<Rightarrow>
                if rename_results then
                  (case open_bag (fs w1) newpath of
                     Inl x \<Rightarrow> (Inl x, w1)
                   | Inr b \<Rightarrow>
                       (let w2 = emit (OpenedAppend newpath) w1
                        in case try_body e b w2 of
                             (Inl x, w3) \<Rightarrow>
                               (case bag_close e b (emit (Log (LogTagError x)) w3) of
                                  (Inl y, w4) \<Rightarrow> (Inl y, w4)
                                | (Inr u, w4) \<Rightarrow> (Inr (), w4))
                           | (Inr u, w3) \<Rightarrow>
                               (case prep_and_post e newpath csrf w3 of
                                  (Inl x, w4) \<Rightarrow> (Inl x, w4)
                                | (Inr post_status, w4) \<Rightarrow>
                                    if post_status = ''200'' then
                                      (let w5 = emit (Mkdir (parent newpath @ [post_folder]))
                                                  (emit (Log LogUploadOk) w4)
                                       in case rename_file newpath
                                                 (parent newpath @ [post_folder, path_name newpath]) w5 of
                                            Inl x \<Rightarrow> (Inl x, w5)
                                          | Inr w6 \<Rightarrow> (Inr (), w6))
                                    else (Inr (), emit (Log (LogPostFailed post_status)) w4))))
                else (Inr (), emit (Log (LogSkipUnsafe (path_name newpath))) w1))
         else (Inr (), emit (Log (LogIgnoring (path_name bagpath) (parent bagpath))) w))"

fun process_loop :: "env \<Rightarrow> string \<Rightarrow> nat \<Rightarrow> nat \<Rightarrow> path list \<Rightarrow> world \<Rightarrow> (exn + unit) \<times> world" where
  "process_loop e csrf i net [] w = (Inr (), w)"
| "process_loop e csrf i net (bagpath # rest) w =
     (case process_bag e csrf i net bagpath w of
        (Inl x, w') \<Rightarrow> (Inl x, w')
      | (Inr u, w') \<Rightarrow> process_loop e csrf (i + 1) net rest w')"

text \<open>
  The scan: the files whose name ends in \<^verbatim>\<open>.bag\<close>, in the working directory itself
  or, when recursive, anywhere below it.
\<close>

definition ends_with :: "string \<Rightarrow> string \<Rightarrow> bool" where
  "ends_with s sfx = (length sfx \<le> length s \<and> drop (length s - length sfx) s = sfx)"

definition glob_bags :: "bool \<Rightarrow> path \<Rightarrow> (path \<times> bagfile) list \<Rightarrow> path list" where
  "glob_bags recursive thisdir files =
     filter (\<lambda>p. p \<noteq> [] \<and> ends_with (last p) ''.bag'' \<and>
                 (if recursive
                  then length thisdir < length p \<and> take (length thisdir) p = thisdir
                  else butlast p = thisdir))
       (map fst files)"

text \<open>
  \<^verbatim>\<open>process_bags\<close>: scan, obtain the token (an exception here ends the run before
  any recording is touched), then loop.
\<close>

definition process_bags :: "env \<Rightarrow> world \<Rightarrow> (exn + unit) \<times> world" where
  "process_bags e w =
     (let bagfiles = glob_bags (is_recursive e) (cwd e) (fs w)
      in case fetch_token e of
           Inl x \<Rightarrow> (Inl x, w)
         | Inr csrf \<Rightarrow> process_loop e csrf 1 (length bagfiles) bagfiles w)"

section \<open>Notions used in the statements\<close>

text \<open>
  A path component is a known name when some catalog entry lists it; its type is the
  one of the last such entry. A recording carries a catalog signal when some entry's
  message type is among its message types.
\<close>

definition known_name :: "string \<Rightarrow> bool" where
  "known_name c = list_ex (\<lambda>entry. c \<in> set (snd (snd entry))) vehicle_info"

definition type_of_name :: "string \<Rightarrow> string" where
  "type_of_name c = fst (last (filter (\<lambda>entry. c \<in> set (snd (snd entry))) vehicle_info))"

definition signal_present :: "string list \<Rightarrow> bool" where
  "signal_present types = list_ex (\<lambda>entry. fst (snd entry) \<in> set types) vehicle_info"

definition type_of_signal :: "string list \<Rightarrow> string" where
  "type_of_signal types =
     fst (last (filter (\<lambda>entry. fst (snd entry) \<in> set types) vehicle_info))"

text \<open>
  The verdict policy: a recording is eligible for upload when its name needs no
  renaming or when the identifier answers with status 1 (directory).
\<close>

definition eligible :: "(path \<times> bagfile) list \<Rightarrow> path \<Rightarrow> bool" where
  "eligible files p =
     (\<not> is_rename_necessary (path_name p) \<or>
      map_sum id snd (identify_source files p) = Inr 1)"

text \<open>
  The words of the specification about the depth tag, apart from the code: \<open>m\<close> is
  \<open>x\<close> rounded to two decimal places when \<open>m\<close> is a whole number of hundredths at
  most half a hundredth away from \<open>x\<close>, the even one if \<open>x\<close> lies halfway between two;
  an infinity rounds to itself. \<open>M\<close> is the maximum of the sampled depths when it is
  one of them and each of them is at most \<open>M\<close>; NaN is at most nothing and nothing is
  at most NaN.
\<close>

definition rounded_to_2_decimals :: "rat \<Rightarrow> rat \<Rightarrow> bool" where
  "rounded_to_2_decimals x m =
     (of_int \<lfloor>m * 100\<rfloor> = m * 100 \<and> \<bar>x - m\<bar> \<le> 1 / 200 \<and>
      (\<bar>x - m\<bar> = 1 / 200 \<longrightarrow> even \<lfloor>m * 100\<rfloor>))"

definition rounded_value :: "pyfloat \<Rightarrow> pyfloat \<Rightarrow> bool" where
  "rounded_value v m =
     (case v of
        Finite x \<Rightarrow> (case m of Finite y \<Rightarrow> rounded_to_2_decimals x y | _ \<Rightarrow> False)
      | _ \<Rightarrow> m = v)"

definition at_most :: "pyfloat \<Rightarrow> pyfloat \<Rightarrow> bool" where
  "at_most a b = (a \<noteq> NaN \<and> b \<noteq> NaN \<and> \<not> py_gt a b)"

definition is_maximum_of :: "pyfloat \<Rightarrow> pyfloat list \<Rightarrow> bool" where
  "is_maximum_of M ds = (M \<in> set ds \<and> list_all (\<lambda>d. at_most d M) ds)"

section \<open>Example recordings and environments\<close>

text \<open>
  A recording of a remus vehicle that starts at 10.25 s and ends at 10.5 s, with two
  status samples at depths 1.125 and 2.25; the local clock reads Friday 2024-01-05
  03:04:09 for its start.
\<close>

definition st_friday :: struct_time where
  "st_friday =
     \<lparr>tm_year = 2024, tm_mon = 1, tm_mday = 5, tm_hour = 3, tm_min = 4, tm_sec = 9,
      tm_wday = 4, tm_yday = 5, tm_isdst = 0\<rparr>"

definition sample_a :: status_msg where
  "sample_a = \<lparr>in_mission = True, depth = Finite (9 / 8), mission_mode = 3\<rparr>"

definition sample_b :: status_msg where
  "sample_b = \<lparr>in_mission = True, depth = Finite (9 / 4), mission_mode = 4\<rparr>"

definition rec_remus :: recording where
  "rec_remus =
     \<lparr>start_time = 41 / 4, end_time = 21 / 2,
      msg_types = [''ros_remus/Status''],
      messages = [(''/status'', Status sample_a, \<lparr>secs = 10, nsecs = 250000000\<rparr>),
                  (''/status'', Status sample_b, \<lparr>secs = 10, nsecs = 500000000\<rparr>)]\<rparr>"

text \<open>A recording with no message type of the catalog.\<close>

definition rec_other :: recording where
  "rec_other = \<lparr>start_time = 41 / 4, end_time = 41 / 4, msg_types = [''rosgraph_msgs/Log''],
                 messages = [(''/rosout'', OtherMsg, \<lparr>secs = 10, nsecs = 250000000\<rparr>)]\<rparr>"

text \<open>A well-formed recording with no record at all.\<close>

definition rec_empty :: recording where
  "rec_empty = \<lparr>start_time = 0, end_time = 0, msg_types = [], messages = []\<rparr>"

text \<open>
  The remus recording with NaN as the depth of one sample: of the first, and of the
  second.
\<close>

definition sample_nan :: status_msg where
  "sample_nan = \<lparr>in_mission = True, depth = NaN, mission_mode = 3\<rparr>"

definition rec_nan_first :: recording where
  "rec_nan_first =
     rec_remus\<lparr>messages :=
       [(''/status'', Status sample_nan, \<lparr>secs = 10, nsecs = 250000000\<rparr>),
        (''/status'', Status sample_b, \<lparr>secs = 10, nsecs = 500000000\<rparr>)]\<rparr>"

definition rec_nan_last :: recording where
  "rec_nan_last =
     rec_remus\<lparr>messages :=
       [(''/status'', Status sample_b, \<lparr>secs = 10, nsecs = 250000000\<rparr>),
        (''/status'', Status sample_nan, \<lparr>secs = 10, nsecs = 500000000\<rparr>)]\<rparr>"

text \<open>
  An environment in which everything outside the repository works: the token is
  obtained and every POST is answered with status 200. The scan is recursive.
\<close>

definition env_ok :: env where
  "env_ok =
     \<lparr>cwd = [''/'', ''data''], is_recursive = True, localtime = (\<lambda>t. st_friday),
      fetch_token = Inr ''token'', post = (\<lambda>csrf p f. Inr 200),
      flush_error = (\<lambda>p. None), str_num = (\<lambda>r. ''<float>''), str_set = (\<lambda>S. ''<set>'')\<rparr>"

definition p_raw :: path where
  "p_raw = [''/'', ''data'', ''sugar'', ''dive.bag'']"

definition p_plain :: path where
  "p_plain = [''/'', ''data'', ''dive.bag'']"

definition p_named :: path where
  "p_named = [''/'', ''data'', ''remus_shadow_2024-1-5-3-4-9-4.bag'']"

definition w_raw :: world where
  "w_raw = \<lparr>fs = [(p_raw, Recording rec_remus)], trace = []\<rparr>"

definition w_plain :: world where
  "w_plain = \<lparr>fs = [(p_plain, Recording rec_remus)], trace = []\<rparr>"

definition w_empty :: world where
  "w_empty = \<lparr>fs = [(p_plain, Recording rec_empty)], trace = []\<rparr>"

definition w_named :: world where
  "w_named = \<lparr>fs = [(p_named, Recording rec_remus)], trace = []\<rparr>"

definition b_named :: bag where
  "b_named = \<lparr>filename = p_named, content = rec_remus\<rparr>"

text \<open>A recording under a valid buoy name.\<close>

definition b_buoy :: bag where
  "b_buoy = \<lparr>filename = [''/'', ''data'', ''buoy_sugar_2024-1-5-3-4-9-4.bag''], content = rec_other\<rparr>"

text \<open>The tags of the remus recording under its canonical name.\<close>

definition tags_named :: tags where
  "tags_named =
     [(''vehicle'', TStr ''remus''), (''name'', TStr ''shadow''),
      (''date/time'', TStr ''2024-1-5-3-4-9-4''), (''year'', TStr ''2024''),
      (''mission state'', TBool True), (''max depth'', TNum (Finite (9 / 4))),
      (''mission modes'', TSet (set [3, 4]))]"

text \<open>Where the first run puts the recording, and where a second run puts it.\<close>

definition p_uploaded :: path where
  "p_uploaded = [''/'', ''data'', ''uploaded'', ''remus_shadow_2024-1-5-3-4-9-4.bag'']"

definition p_uploaded_twice :: path where
  "p_uploaded_twice =
     [''/'', ''data'', ''uploaded'', ''uploaded'', ''remus_shadow_2024-1-5-3-4-9-4.bag'']"

text \<open>The files a first run leaves behind, with an empty trace for the second run.\<close>

definition w_after_first :: world where
  "w_after_first = (snd (process_bags env_ok w_named))\<lparr>trace := []\<rparr>"

text \<open>
  Environments in which one collaborator fails: the transport raises on every POST,
  the backing store refuses every flush (the file cannot grow), the token cannot be
  obtained.
\<close>

definition env_down :: env where
  "env_down = env_ok\<lparr>post := (\<lambda>csrf p f. Inl RequestException)\<rparr>"

definition env_full :: env where
  "env_full = env_ok\<lparr>flush_error := (\<lambda>p. Some IOError)\<rparr>"

definition env_locked :: env where
  "env_locked = env_ok\<lparr>fetch_token := Inl RequestException\<rparr>"

definition p_second :: path where
  "p_second = [''/'', ''data'', ''remus_casper_2024-1-5-3-4-9-4.bag'']"

text \<open>Two recordings with valid names; an unreadable file followed by a recording.\<close>

definition w_two :: world where
  "w_two = \<lparr>fs = [(p_named, Recording rec_remus), (p_second, Recording rec_remus)], trace = []\<rparr>"

definition w_broken :: world where
  "w_broken = \<lparr>fs = [(p_plain, Unreadable), (p_second, Recording rec_remus)], trace = []\<rparr>"

text \<open>
  A remus recording under a valid name whose only record is on another topic, so
  that its status channel is empty.
\<close>

definition rec_no_status :: recording where
  "rec_no_status =
     rec_remus\<lparr>messages := [(''/rosout'', OtherMsg, \<lparr>secs = 10, nsecs = 250000000\<rparr>)]\<rparr>"

definition w_no_status :: world where
  "w_no_status = \<lparr>fs = [(p_named, Recording rec_no_status)], trace = []\<rparr>"

text \<open>The recording with no record under the same valid name.\<close>

definition w_named_empty :: world where
  "w_named_empty = \<lparr>fs = [(p_named, Recording rec_empty)], trace = []\<rparr>"

section \<open>Properties of the leaves\<close>

subsection \<open>Naming validator\<close>

text \<open>
  Claim C6. A filename whose number of underscore-separated segments is neither 3 nor 4
  needs renaming. A filename with 3 or 4 segments whose segment 0 is a vehicle type of
  the catalog and whose segment 1 is one of that type's names does not, whatever the
  other segments are.
\<close>

theorem is_rename_necessary_decision:
  "(length (split_on CHR ''_'' fname) \<notin> {3, 4} \<longrightarrow> is_rename_necessary fname) \<and>
   (length (split_on CHR ''_'' fname) \<in> {3, 4} \<and>
    map_of vehicle_info (split_on CHR ''_'' fname ! 0) = Some (signal, names) \<and>
    split_on CHR ''_'' fname ! 1 \<in> set names \<longrightarrow> \<not> is_rename_necessary fname)"
  by (auto simp: is_rename_necessary_def Let_def)

theorem is_rename_necessary_decision_witness:
  "length (split_on CHR ''_'' ''dive_7.bag'') \<notin> {3, 4} \<and>
   is_rename_necessary ''dive_7.bag'' \<and>
   length (split_on CHR ''_'' ''remus_casper_x y.bag'') \<in> {3, 4} \<and>
   map_of vehicle_info (split_on CHR ''_'' ''remus_casper_x y.bag'' ! 0) =
     Some (''ros_remus/Status'', [''shadow'', ''casper'', ''bullwinkle'']) \<and>
   split_on CHR ''_'' ''remus_casper_x y.bag'' ! 1 \<in> set [''shadow'', ''casper'', ''bullwinkle''] \<and>
   \<not> is_rename_necessary ''remus_casper_x y.bag''"
proof -
  have a: "length (split_on CHR ''_'' ''dive_7.bag'') \<notin> {3, 4}"
    by code_simp
  have b: "length (split_on CHR ''_'' ''remus_casper_x y.bag'') \<in> {3, 4} \<and>
    map_of vehicle_info (split_on CHR ''_'' ''remus_casper_x y.bag'' ! 0) =
      Some (''ros_remus/Status'', [''shadow'', ''casper'', ''bullwinkle'']) \<and>
    split_on CHR ''_'' ''remus_casper_x y.bag'' ! 1 \<in> set [''shadow'', ''casper'', ''bullwinkle'']"
    by code_simp
  have c: "is_rename_necessary ''dive_7.bag''"
    using a is_rename_necessary_decision [of "''dive_7.bag''"] by blast
  have d: "\<not> is_rename_necessary ''remus_casper_x y.bag''"
    using b is_rename_necessary_decision [of "''remus_casper_x y.bag''" "''ros_remus/Status''"
        "[''shadow'', ''casper'', ''bullwinkle'']"] by blast
  from a b c d show ?thesis by blast
qed

subsection \<open>Timestamp token\<close>

text \<open>
  Claim C4 says that the token has six fields and ends at the seconds. The loop of
  \<open>identify_date\<close> leaves after the iteration of index 6, which is the seventh: the
  token has seven fields, the last one being the day of the week, and no field is
  padded. For the Friday of the example the token is \<open>2024-1-5-3-4-9-4\<close>.
\<close>

theorem identify_date_seventh_field:
  "identify_date_loop 0 (struct_time_fields st) [] =
     str_int (tm_year st) @ ''-'' @ str_int (tm_mon st) @ ''-'' @ str_int (tm_mday st) @ ''-'' @
     str_int (tm_hour st) @ ''-'' @ str_int (tm_min st) @ ''-'' @ str_int (tm_sec st) @ ''-'' @
     str_int (tm_wday st) @ ''-'' \<and>
   identify_date env_ok \<lparr>filename = p_raw, content = rec_remus\<rparr> =
     Inr ''2024-1-5-3-4-9-4''"
proof
  show "identify_date_loop 0 (struct_time_fields st) [] =
     str_int (tm_year st) @ ''-'' @ str_int (tm_mon st) @ ''-'' @ str_int (tm_mday st) @ ''-'' @
     str_int (tm_hour st) @ ''-'' @ str_int (tm_min st) @ ''-'' @ str_int (tm_sec st) @ ''-'' @
     str_int (tm_wday st) @ ''-''"
    by (simp add: struct_time_fields_def Let_def eval_nat_numeral)
  show "identify_date env_ok \<lparr>filename = p_raw, content = rec_remus\<rparr> =
     Inr ''2024-1-5-3-4-9-4''"
    by code_simp
qed

subsection \<open>Source identifier\<close>

lemma directory_inner:
  "foldl (directory_step pf) st vehicle_info =
     (if known_name pf then (Some (type_of_name pf @ ''_'' @ pf), 1) else st)"
  by (simp add: vehicle_info_def directory_step_def known_name_def type_of_name_def)

lemma directory_strategy_char:
  "directory_strategy p st =
     (if filter known_name p = [] then st
      else (Some (type_of_name (last (filter known_name p)) @ ''_'' @ last (filter known_name p)), 1))"
  unfolding directory_strategy_def
  by (induction p arbitrary: st) (simp_all add: directory_inner)

lemma content_char:
  "foldl (content_step types) st vehicle_info =
     (if signal_present types then (Some (type_of_signal types @ ''_unknownname''), 2) else st)"
  by (simp add: vehicle_info_def content_step_def signal_present_def type_of_signal_def)

lemma identify_source_status:
  "identify_source files p = Inr (source, status) \<Longrightarrow> status \<in> {0, 1, 2}"
  by (auto simp: identify_source_def directory_strategy_char content_char Let_def
           split: if_splits sum.splits option.splits)

lemma identify_source_returns:
  "open_bag files p = Inr b \<Longrightarrow> \<exists>source status. identify_source files p = Inr (source, status)"
  by (simp add: identify_source_def directory_strategy_char content_char Let_def)

text \<open>
  Claim C5. If some component of the path is a known name, the result is status 1
  (directory) and the name is such a component, the last one of the path, whatever the
  recording contains, a catalog signal included. If no component is a known name and
  the recording carries a catalog signal, the result is status 2 (content) with the
  placeholder \<open>unknownname\<close>. If neither holds, the result is
  \<open>unknowntype_unknownname\<close> with status 0 (failed).
\<close>

theorem identify_source_strategies:
  "(filter known_name p \<noteq> [] \<longrightarrow>
      last (filter known_name p) \<in> set p \<and> known_name (last (filter known_name p)) \<and>
      identify_source files p =
        Inr (type_of_name (last (filter known_name p)) @ ''_'' @ last (filter known_name p), 1)) \<and>
   (filter known_name p = [] \<and> open_bag files p = Inr b \<and>
    signal_present (msg_types (content b)) \<longrightarrow>
      identify_source files p = Inr (type_of_signal (msg_types (content b)) @ ''_unknownname'', 2)) \<and>
   (filter known_name p = [] \<and> open_bag files p = Inr b \<and>
    \<not> signal_present (msg_types (content b)) \<longrightarrow>
      identify_source files p = Inr (''unknowntype_unknownname'', 0))"
proof (intro conjI impI)
  assume ne: "filter known_name p \<noteq> []"
  then have "last (filter known_name p) \<in> set (filter known_name p)"
    by (rule last_in_set)
  then show "last (filter known_name p) \<in> set p" and "known_name (last (filter known_name p))"
    by simp_all
  from ne show "identify_source files p =
      Inr (type_of_name (last (filter known_name p)) @ ''_'' @ last (filter known_name p), 1)"
    by (simp add: identify_source_def directory_strategy_char Let_def)
next
  assume "filter known_name p = [] \<and> open_bag files p = Inr b \<and>
    signal_present (msg_types (content b))"
  then show "identify_source files p =
      Inr (type_of_signal (msg_types (content b)) @ ''_unknownname'', 2)"
    by (simp add: identify_source_def directory_strategy_char content_char Let_def)
next
  assume "filter known_name p = [] \<and> open_bag files p = Inr b \<and>
    \<not> signal_present (msg_types (content b))"
  then show "identify_source files p = Inr (''unknowntype_unknownname'', 0)"
    by (simp add: identify_source_def directory_strategy_char content_char Let_def)
qed

theorem identify_source_strategies_witness:
  "filter known_name p_raw \<noteq> [] \<and>
   last (filter known_name p_raw) = ''sugar'' \<and>
   signal_present (msg_types rec_remus) \<and>
   identify_source [(p_raw, Recording rec_remus)] p_raw = Inr (''buoy_sugar'', 1) \<and>
   filter known_name p_plain = [] \<and>
   open_bag [(p_plain, Recording rec_remus)] p_plain = Inr \<lparr>filename = p_plain, content = rec_remus\<rparr> \<and>
   identify_source [(p_plain, Recording rec_remus)] p_plain = Inr (''remus_unknownname'', 2) \<and>
   open_bag [(p_plain, Recording rec_other)] p_plain = Inr \<lparr>filename = p_plain, content = rec_other\<rparr> \<and>
   \<not> signal_present (msg_types rec_other) \<and>
   identify_source [(p_plain, Recording rec_other)] p_plain = Inr (''unknowntype_unknownname'', 0)"
proof -
  have h1: "filter known_name p_raw \<noteq> []" by code_simp
  have v1: "type_of_name (last (filter known_name p_raw)) @ ''_'' @ last (filter known_name p_raw)
              = ''buoy_sugar''" by code_simp
  have n1: "last (filter known_name p_raw) = ''sugar''" by code_simp
  have h2: "filter known_name p_plain = []" by code_simp
  have o2: "open_bag [(p_plain, Recording rec_remus)] p_plain
              = Inr \<lparr>filename = p_plain, content = rec_remus\<rparr>" by (simp add: open_bag_def)
  have s2: "signal_present (msg_types rec_remus)" by code_simp
  have v2: "type_of_signal (msg_types rec_remus) @ ''_unknownname'' = ''remus_unknownname''"
    by code_simp
  have o3: "open_bag [(p_plain, Recording rec_other)] p_plain
              = Inr \<lparr>filename = p_plain, content = rec_other\<rparr>" by (simp add: open_bag_def)
  have s3: "\<not> signal_present (msg_types rec_other)" by code_simp
  have c1: "identify_source [(p_raw, Recording rec_remus)] p_raw = Inr (''buoy_sugar'', 1)"
    using h1 v1 identify_source_strategies [of p_raw "[(p_raw, Recording rec_remus)]"]
    by simp
  have c2: "identify_source [(p_plain, Recording rec_remus)] p_plain = Inr (''remus_unknownname'', 2)"
    using h2 o2 s2 v2
      identify_source_strategies [of p_plain "[(p_plain, Recording rec_remus)]"
        "\<lparr>filename = p_plain, content = rec_remus\<rparr>"]
    by simp
  have c3: "identify_source [(p_plain, Recording rec_other)] p_plain
              = Inr (''unknowntype_unknownname'', 0)"
    using h2 o3 s3
      identify_source_strategies [of p_plain "[(p_plain, Recording rec_other)]"
        "\<lparr>filename = p_plain, content = rec_other\<rparr>"]
    by simp
  from h1 n1 s2 c1 h2 o2 c2 o3 s3 c3 show ?thesis by blast
qed

subsection \<open>Renamer\<close>

lemma identify_date_returns:
  "messages (content b) \<noteq> [] \<Longrightarrow> \<exists>date. identify_date e b = Inr date"
  by (simp add: identify_date_def get_start_time_def)

lemma identify_date_empty:
  "messages (content b) = [] \<Longrightarrow> identify_date e b = Inl ROSBagException"
  by (simp add: identify_date_def get_start_time_def)

text \<open>
  Claim C2 says that a verdict is returned for every recording that needs renaming. A
  recording with no record at all, under a name that needs renaming, is identified
  (here with status 0), but \<open>identify_date\<close> then raises and \<open>standard_rename\<close>
  returns no verdict: the exception leaves it, and the file is not renamed.
\<close>

theorem standard_rename_raises_on_empty_recording:
  "is_rename_necessary (path_name p_plain) \<and>
   open_bag (fs w_empty) p_plain = Inr \<lparr>filename = p_plain, content = rec_empty\<rparr> \<and>
   identify_source (fs w_empty) p_plain = Inr (''unknowntype_unknownname'', 0) \<and>
   standard_rename env_ok p_plain w_empty = (Inl ROSBagException, w_empty)"
  by code_simp

text \<open>
  Claim C2, amended. For a recording that needs renaming, that the identifier and the
  library can read and that holds at least one record, the status is 0, 1 or 2 and
  the verdict of \<open>standard_rename\<close> is true exactly for status 1: false for 0
  (failed), true for 1 (directory), false for 2 (content), whatever the source string
  is. For such a recording with no record, \<open>standard_rename\<close> raises and changes
  nothing. A recording that needs no renaming is eligible and nothing changes.
\<close>

theorem standard_rename_verdict:
  "(is_rename_necessary (path_name p) \<and> identify_source (fs w) p = Inr (source, status) \<and>
    open_bag (fs w) p = Inr b \<and> messages (content b) \<noteq> [] \<longrightarrow>
      status \<in> {0, 1, 2} \<and>
      (\<exists>date. identify_date e b = Inr date \<and>
         fst (standard_rename e p w) =
           Inr (status = 1, parent p @ [source @ ''_'' @ date @ ''.bag'']))) \<and>
   (is_rename_necessary (path_name p) \<and> identify_source (fs w) p = Inr (source, status) \<and>
    open_bag (fs w) p = Inr b \<and> messages (content b) = [] \<longrightarrow>
      standard_rename e p w = (Inl ROSBagException, w)) \<and>
   (\<not> is_rename_necessary (path_name p) \<longrightarrow> standard_rename e p w = (Inr (True, p), w))"
proof (intro conjI impI)
  assume h: "is_rename_necessary (path_name p) \<and>
    identify_source (fs w) p = Inr (source, status) \<and> open_bag (fs w) p = Inr b \<and>
    messages (content b) \<noteq> []"
  then show st: "status \<in> {0, 1, 2}"
    using identify_source_status by blast
  from h obtain date where d: "identify_date e b = Inr date"
    using identify_date_returns by blast
  from h obtain f where "map_of (fs w) p = Some f"
    by (auto simp: open_bag_def split: option.splits)
  with h st d have "fst (standard_rename e p w) =
      Inr (status = 1, parent p @ [source @ ''_'' @ date @ ''.bag''])"
    by (auto simp: standard_rename_def rename_file_def Let_def)
  with d show "\<exists>date. identify_date e b = Inr date \<and>
      fst (standard_rename e p w) =
        Inr (status = 1, parent p @ [source @ ''_'' @ date @ ''.bag''])"
    by blast
next
  assume h: "is_rename_necessary (path_name p) \<and>
    identify_source (fs w) p = Inr (source, status) \<and> open_bag (fs w) p = Inr b \<and>
    messages (content b) = []"
  then have "identify_date e b = Inl ROSBagException"
    using identify_date_empty by blast
  with h show "standard_rename e p w = (Inl ROSBagException, w)"
    by (simp add: standard_rename_def)
next
  assume "\<not> is_rename_necessary (path_name p)"
  then show "standard_rename e p w = (Inr (True, p), w)"
    by (simp add: standard_rename_def)
qed

theorem standard_rename_verdict_witness:
  "is_rename_necessary (path_name p_raw) \<and>
   identify_source (fs w_raw) p_raw = Inr (''buoy_sugar'', 1) \<and>
   open_bag (fs w_raw) p_raw = Inr \<lparr>filename = p_raw, content = rec_remus\<rparr> \<and>
   messages (content \<lparr>filename = p_raw, content = rec_remus\<rparr>) \<noteq> [] \<and>
   fst (standard_rename env_ok p_raw w_raw) =
     Inr (True, [''/'', ''data'', ''sugar'', ''buoy_sugar_2024-1-5-3-4-9-4.bag'']) \<and>
   is_rename_necessary (path_name p_plain) \<and>
   identify_source (fs w_plain) p_plain = Inr (''remus_unknownname'', 2) \<and>
   open_bag (fs w_plain) p_plain = Inr \<lparr>filename = p_plain, content = rec_remus\<rparr> \<and>
   messages (content \<lparr>filename = p_plain, content = rec_remus\<rparr>) \<noteq> [] \<and>
   fst (standard_rename env_ok p_plain w_plain) =
     Inr (False, [''/'', ''data'', ''remus_unknownname_2024-1-5-3-4-9-4.bag'']) \<and>
   identify_source (fs w_empty) p_plain = Inr (''unknowntype_unknownname'', 0) \<and>
   open_bag (fs w_empty) p_plain = Inr \<lparr>filename = p_plain, content = rec_empty\<rparr> \<and>
   messages (content \<lparr>filename = p_plain, content = rec_empty\<rparr>) = [] \<and>
   standard_rename env_ok p_plain w_empty = (Inl ROSBagException, w_empty) \<and>
   \<not> is_rename_necessary (path_name p_named) \<and>
   standard_rename env_ok p_named w_named = (Inr (True, p_named), w_named)"
proof -
  let ?b1 = "\<lparr>filename = p_raw, content = rec_remus\<rparr>"
  let ?b2 = "\<lparr>filename = p_plain, content = rec_remus\<rparr>"
  let ?b3 = "\<lparr>filename = p_plain, content = rec_empty\<rparr>"
  have h1: "is_rename_necessary (path_name p_raw) \<and>
      identify_source (fs w_raw) p_raw = Inr (''buoy_sugar'', 1) \<and>
      open_bag (fs w_raw) p_raw = Inr ?b1 \<and> messages (content ?b1) \<noteq> []"
    by code_simp
  have d1: "identify_date env_ok ?b1 = Inr ''2024-1-5-3-4-9-4''"
    by code_simp
  have v1: "parent p_raw @ [''buoy_sugar'' @ ''_'' @ ''2024-1-5-3-4-9-4'' @ ''.bag'']
      = [''/'', ''data'', ''sugar'', ''buoy_sugar_2024-1-5-3-4-9-4.bag'']"
    by code_simp
  have h2: "is_rename_necessary (path_name p_plain) \<and>
      identify_source (fs w_plain) p_plain = Inr (''remus_unknownname'', 2) \<and>
      open_bag (fs w_plain) p_plain = Inr ?b2 \<and> messages (content ?b2) \<noteq> []"
    by code_simp
  have d2: "identify_date env_ok ?b2 = Inr ''2024-1-5-3-4-9-4''"
    by code_simp
  have v2: "parent p_plain @ [''remus_unknownname'' @ ''_'' @ ''2024-1-5-3-4-9-4'' @ ''.bag'']
      = [''/'', ''data'', ''remus_unknownname_2024-1-5-3-4-9-4.bag'']"
    by code_simp
  have h3: "is_rename_necessary (path_name p_plain) \<and>
      identify_source (fs w_empty) p_plain = Inr (''unknowntype_unknownname'', 0) \<and>
      open_bag (fs w_empty) p_plain = Inr ?b3 \<and> messages (content ?b3) = []"
    by code_simp
  have h4: "\<not> is_rename_necessary (path_name p_named)"
    by code_simp
  have c1: "fst (standard_rename env_ok p_raw w_raw) =
      Inr (True, [''/'', ''data'', ''sugar'', ''buoy_sugar_2024-1-5-3-4-9-4.bag''])"
    using h1 d1 v1
      standard_rename_verdict [of p_raw w_raw "''buoy_sugar''" 1 ?b1 env_ok]
    by auto
  have c2: "fst (standard_rename env_ok p_plain w_plain) =
      Inr (False, [''/'', ''data'', ''remus_unknownname_2024-1-5-3-4-9-4.bag''])"
    using h2 d2 v2
      standard_rename_verdict [of p_plain w_plain "''remus_unknownname''" 2 ?b2 env_ok]
    by auto
  have c3: "standard_rename env_ok p_plain w_empty = (Inl ROSBagException, w_empty)"
    using h3
      standard_rename_verdict [of p_plain w_empty "''unknowntype_unknownname''" 0 ?b3 env_ok]
    by blast
  have c4: "standard_rename env_ok p_named w_named = (Inr (True, p_named), w_named)"
    using h4 standard_rename_verdict [of p_named w_named _ _ _ env_ok] by blast
  from h1 c1 h2 c2 h3 c3 h4 c4 show ?thesis
    by blast
qed

subsection \<open>Tag generator\<close>

lemma round_half_even_bounds:
  "\<lfloor>y\<rfloor> \<le> round_half_even y \<and> round_half_even y \<le> \<lfloor>y\<rfloor> + 1"
  by (simp add: round_half_even_def Let_def)

lemma round_half_even_mono:
  assumes "x \<le> y"
  shows "round_half_even x \<le> round_half_even y"
proof (cases "\<lfloor>x\<rfloor> = \<lfloor>y\<rfloor>")
  case True
  with assms have "x - of_int \<lfloor>y\<rfloor> \<le> y - of_int \<lfloor>y\<rfloor>"
    by simp
  with True show ?thesis
    by (simp add: round_half_even_def Let_def)
next
  case False
  with assms have "\<lfloor>x\<rfloor> < \<lfloor>y\<rfloor>"
    using floor_mono [OF assms] by linarith
  then have "round_half_even x \<le> \<lfloor>y\<rfloor>"
    using round_half_even_bounds [of x] by linarith
  then show ?thesis
    using round_half_even_bounds [of y] by linarith
qed

lemma round2_mono: "x \<le> y \<Longrightarrow> round2 x \<le> round2 y"
  by (simp add: round2_def round_half_even_mono divide_right_mono)

text \<open>The rounding of the code is the rounding of the specification.\<close>

lemma round_half_even_nearest:
  "\<bar>y - of_int (round_half_even y)\<bar> \<le> 1 / 2 \<and>
   (\<bar>y - of_int (round_half_even y)\<bar> = 1 / 2 \<longrightarrow> even (round_half_even y))"
proof -
  define r where "r = y - of_int \<lfloor>y\<rfloor>"
  have r: "0 \<le> r" "r < 1"
    unfolding r_def by linarith+
  have y: "y = of_int \<lfloor>y\<rfloor> + r"
    by (simp add: r_def)
  consider "r < 1 / 2" | "1 / 2 < r" | "r = 1 / 2"
    by linarith
  then show ?thesis
  proof cases
    case 1
    then have k: "round_half_even y = \<lfloor>y\<rfloor>"
      by (simp add: round_half_even_def Let_def r_def)
    have "\<bar>y - of_int \<lfloor>y\<rfloor>\<bar> = r"
      using r by (simp add: r_def)
    with 1 r show ?thesis
      unfolding k by simp
  next
    case 2
    then have k: "round_half_even y = \<lfloor>y\<rfloor> + 1"
      by (simp add: round_half_even_def Let_def r_def)
    have "\<bar>y - of_int (\<lfloor>y\<rfloor> + 1)\<bar> = 1 - r"
      using r by (simp add: r_def)
    with 2 r show ?thesis
      unfolding k by simp
  next
    case 3
    show ?thesis
    proof (cases "even \<lfloor>y\<rfloor>")
      case True
      with 3 have k: "round_half_even y = \<lfloor>y\<rfloor>"
        by (simp add: round_half_even_def Let_def r_def)
      have "\<bar>y - of_int \<lfloor>y\<rfloor>\<bar> = r"
        using r by (simp add: r_def)
      with 3 True show ?thesis
        unfolding k by simp
    next
      case False
      with 3 have k: "round_half_even y = \<lfloor>y\<rfloor> + 1"
        by (simp add: round_half_even_def Let_def r_def)
      have "\<bar>y - of_int (\<lfloor>y\<rfloor> + 1)\<bar> = 1 - r"
        using r by (simp add: r_def)
      with 3 False show ?thesis
        unfolding k by simp
    qed
  qed
qed

lemma round2_rounded: "rounded_to_2_decimals x (round2 x)"
proof -
  let ?k = "round_half_even (x * 100)"
  have m: "round2 x * 100 = of_int ?k"
    by (simp add: round2_def)
  have d: "\<bar>x - round2 x\<bar> = \<bar>x * 100 - of_int ?k\<bar> / 100"
    by (simp add: round2_def abs_if field_simps)
  have n: "\<bar>x * 100 - of_int ?k\<bar> \<le> 1 / 2 \<and>
      (\<bar>x * 100 - of_int ?k\<bar> = 1 / 2 \<longrightarrow> even ?k)"
    by (rule round_half_even_nearest)
  have "\<bar>x - round2 x\<bar> \<le> 1 / 200"
    using n unfolding d by simp
  moreover have "\<bar>x - round2 x\<bar> = 1 / 200 \<longrightarrow> even ?k"
    using n unfolding d by simp
  ultimately show ?thesis
    unfolding rounded_to_2_decimals_def m by simp
qed

lemma py_round2_rounded: "rounded_value v (py_round2 v)"
  by (cases v) (simp_all add: rounded_value_def py_round2_def round2_rounded)

lemma py_round2_NaN: "py_round2 v = NaN \<longleftrightarrow> v = NaN"
  by (cases v) (simp_all add: py_round2_def)

text \<open>Away from NaN, \<^verbatim>\<open>>\<close> is a strict linear order, and rounding respects it.\<close>

lemma py_gt_negtrans:
  "a \<noteq> NaN \<Longrightarrow> b \<noteq> NaN \<Longrightarrow> c \<noteq> NaN \<Longrightarrow>
   \<not> py_gt a b \<Longrightarrow> \<not> py_gt b c \<Longrightarrow> \<not> py_gt a c"
  by (cases a; cases b; cases c) auto

lemma py_gt_antisym:
  "a \<noteq> NaN \<Longrightarrow> b \<noteq> NaN \<Longrightarrow> \<not> py_gt a b \<Longrightarrow> \<not> py_gt b a \<Longrightarrow> a = b"
  by (cases a; cases b) auto

lemma py_gt_asym: "py_gt a b \<Longrightarrow> \<not> py_gt b a"
  by (cases a; cases b) auto

lemma py_round2_mono:
  "a \<noteq> NaN \<Longrightarrow> b \<noteq> NaN \<Longrightarrow> \<not> py_gt a b \<Longrightarrow> \<not> py_gt (py_round2 a) (py_round2 b)"
  by (cases a; cases b) (auto simp: py_round2_def not_less intro: round2_mono)

text \<open>Without NaN, \<^verbatim>\<open>max\<close> returns an item that no item is greater than.\<close>

lemma foldl_py_max_step:
  assumes "NaN \<notin> set (x # xs)"
  shows "foldl py_max_step x xs \<in> set (x # xs) \<and>
         (\<forall>y \<in> set (x # xs). \<not> py_gt y (foldl py_max_step x xs))"
  using assms
proof (induction xs arbitrary: x)
  case Nil
  then show ?case
    by (cases x) auto
next
  case (Cons a xs)
  let ?x' = "py_max_step x a"
  let ?m = "foldl py_max_step ?x' xs"
  have x': "?x' = x \<or> ?x' = a"
    by (simp add: py_max_step_def)
  with Cons.prems have nn: "NaN \<notin> set (?x' # xs)"
    by auto
  from Cons.IH [OF nn] have m_in: "?m \<in> set (?x' # xs)"
    and m_max: "\<forall>y \<in> set (?x' # xs). \<not> py_gt y ?m"
    by blast+
  from m_in nn have m_nn: "?m \<noteq> NaN"
    by metis
  have xa: "\<not> py_gt x ?x'" "\<not> py_gt a ?x'"
    using Cons.prems by (auto simp: py_max_step_def dest: py_gt_asym)
  have x'm: "\<not> py_gt ?x' ?m"
    using m_max by simp
  have x'_nn: "?x' \<noteq> NaN"
    using nn by auto
  have "\<not> py_gt x ?m"
    using Cons.prems x'_nn m_nn xa(1) x'm by (intro py_gt_negtrans [of x ?x' ?m]) auto
  moreover have "\<not> py_gt a ?m"
    using Cons.prems x'_nn m_nn xa(2) x'm by (intro py_gt_negtrans [of a ?x' ?m]) auto
  moreover have "?m \<in> set (x # a # xs)"
    using m_in x' by auto
  ultimately show ?case
    using m_max by auto
qed

lemma py_max_is_maximum:
  assumes "xs \<noteq> []" and "NaN \<notin> set xs"
  shows "\<exists>m. py_max xs = Inr m \<and> is_maximum_of m xs"
proof -
  from assms(1) obtain x rest where xs: "xs = x # rest"
    by (cases xs) auto
  from foldl_py_max_step [of x rest] assms(2) xs
  have "foldl py_max_step x rest \<in> set xs"
    and "\<forall>y \<in> set xs. \<not> py_gt y (foldl py_max_step x rest)"
    by simp_all
  moreover from this(1) assms(2) have "foldl py_max_step x rest \<noteq> NaN"
    by metis
  moreover have "y \<noteq> NaN" if "y \<in> set xs" for y
    using that assms(2) by metis
  ultimately have "is_maximum_of (foldl py_max_step x rest) xs"
    by (simp add: is_maximum_of_def list_all_iff at_most_def)
  then show ?thesis
    by (simp add: py_max_def xs)
qed

lemma scan_status_map:
  "scan_status (map Status ss) (ds, ms) =
     Inr (ds @ map (\<lambda>s. py_round2 (depth s)) ss, ms @ map mission_mode ss)"
  by (induction ss arbitrary: ds ms) simp_all

text \<open>The maximum of the rounded depths is the rounded maximum of the depths.\<close>

lemma py_max_rounded:
  assumes "ds \<noteq> []" and "NaN \<notin> set ds"
  shows "\<exists>M m. py_max (map py_round2 ds) = Inr m \<and> is_maximum_of M ds \<and> m = py_round2 M"
proof -
  let ?rs = "map py_round2 ds"
  have nn_round: "py_round2 d \<noteq> NaN" if "d \<in> set ds" for d
    using that assms(2) py_round2_NaN [of d] by metis
  have "NaN \<notin> set ?rs"
  proof
    assume "NaN \<in> set ?rs"
    then obtain d where "d \<in> set ds" and "NaN = py_round2 d"
      by auto
    then show False
      using nn_round [of d] by simp
  qed
  with assms(1) have rs: "?rs \<noteq> []" "NaN \<notin> set ?rs"
    by simp_all
  from py_max_is_maximum [OF rs] obtain m
    where m: "py_max ?rs = Inr m" and mm: "is_maximum_of m ?rs"
    by blast
  from py_max_is_maximum [OF assms] obtain M
    where MM: "is_maximum_of M ds"
    by blast
  from MM have M_in: "M \<in> set ds" and M_max: "\<forall>d \<in> set ds. \<not> py_gt d M"
    by (simp_all add: is_maximum_of_def list_all_iff at_most_def)
  from mm have m_in: "m \<in> set ?rs" and m_max: "\<forall>r \<in> set ?rs. \<not> py_gt r m"
    by (simp_all add: is_maximum_of_def list_all_iff at_most_def)
  from m_in obtain d0 where d0: "d0 \<in> set ds" "m = py_round2 d0"
    by auto
  have nn: "M \<noteq> NaN" "d0 \<noteq> NaN"
    using M_in d0(1) assms(2) by metis+
  have "\<not> py_gt (py_round2 M) m"
    using m_max M_in by simp
  moreover have "\<not> py_gt m (py_round2 M)"
    unfolding d0(2) using nn M_max d0(1) by (intro py_round2_mono) auto
  moreover have "m \<noteq> NaN" "py_round2 M \<noteq> NaN"
    using nn d0(2) by (simp_all add: py_round2_NaN)
  ultimately have "m = py_round2 M"
    by (intro py_gt_antisym) auto
  with m MM show ?thesis
    by blast
qed

text \<open>
  Claim C9 says that the depth tag is the maximum of the sampled depths, rounded. The
  two recordings below hold the same two samples, one of depth NaN and one of depth
  2.25, in opposite orders. With NaN first the tag is NaN, which is not the maximum of
  the samples; with NaN last it is 2.25. No maximum of the sampled values, which is the
  same for both recordings, agrees with both.
\<close>

theorem max_depth_depends_on_sample_order:
  "read_messages \<lparr>filename = p_named, content = rec_nan_first\<rparr> ''/status'' =
     [Status sample_nan, Status sample_b] \<and>
   read_messages \<lparr>filename = p_named, content = rec_nan_last\<rparr> ''/status'' =
     [Status sample_b, Status sample_nan] \<and>
   map_sum id (\<lambda>tgs. map_of tgs ''max depth'')
     (generate_tags env_ok \<lparr>filename = p_named, content = rec_nan_first\<rparr>) =
     Inr (Some (TNum NaN)) \<and>
   map_sum id (\<lambda>tgs. map_of tgs ''max depth'')
     (generate_tags env_ok \<lparr>filename = p_named, content = rec_nan_last\<rparr>) =
     Inr (Some (TNum (Finite (9 / 4)))) \<and>
   \<not> is_maximum_of NaN (map depth [sample_nan, sample_b])"
  by code_simp

text \<open>
  Claim C9, amended. In every tag set that \<open>generate_tags\<close> returns, the value of
  \<open>year\<close> is the first four characters of the value of \<open>date/time\<close>. For a recording
  whose name has \<open>remus\<close> as first segment and whose status channel holds the samples
  \<open>ss\<close>, at least one and none with depth NaN, a tag set is returned and its
  \<open>max depth\<close> is the maximum of the sampled depths rounded to two decimal places. For
  a recording of another type whose name has two segments or more and that holds at
  least one record, a tag set is returned.
\<close>

theorem generate_tags_year_and_max_depth:
  "(generate_tags e b = Inr tgs \<longrightarrow>
      (\<exists>d. map_of tgs ''date/time'' = Some (TStr d) \<and>
           map_of tgs ''year'' = Some (TStr (take 4 d)))) \<and>
   (2 \<le> length (filename b) \<and> 2 \<le> length (split_on CHR ''_'' (last (filename b))) \<and>
    split_on CHR ''_'' (last (filename b)) ! 0 = ''remus'' \<and>
    read_messages b ''/status'' = map Status ss \<and> ss \<noteq> [] \<and>
    NaN \<notin> set (map depth ss) \<longrightarrow>
      (\<exists>tgs' M m. generate_tags e b = Inr tgs' \<and>
         map_of tgs' ''max depth'' = Some (TNum m) \<and>
         is_maximum_of M (map depth ss) \<and> rounded_value M m)) \<and>
   (2 \<le> length (filename b) \<and> 2 \<le> length (split_on CHR ''_'' (last (filename b))) \<and>
    split_on CHR ''_'' (last (filename b)) ! 0 \<noteq> ''remus'' \<and>
    messages (content b) \<noteq> [] \<longrightarrow>
      (\<exists>tgs'. generate_tags e b = Inr tgs'))"
proof (intro conjI impI)
  assume h: "2 \<le> length (filename b) \<and> 2 \<le> length (split_on CHR ''_'' (last (filename b))) \<and>
    split_on CHR ''_'' (last (filename b)) ! 0 \<noteq> ''remus'' \<and> messages (content b) \<noteq> []"
  then obtain date where "identify_date e b = Inr date"
    using identify_date_returns by blast
  with h show "\<exists>tgs'. generate_tags e b = Inr tgs'"
    by (simp add: generate_tags_def Let_def)
next
  assume "generate_tags e b = Inr tgs"
  then show "\<exists>d. map_of tgs ''date/time'' = Some (TStr d) \<and>
                 map_of tgs ''year'' = Some (TStr (take 4 d))"
    by (auto simp: generate_tags_def Let_def first_status_def update_conv'
             split: if_splits sum.splits list.splits msg.splits)
next
  assume h: "2 \<le> length (filename b) \<and> 2 \<le> length (split_on CHR ''_'' (last (filename b))) \<and>
    split_on CHR ''_'' (last (filename b)) ! 0 = ''remus'' \<and>
    read_messages b ''/status'' = map Status ss \<and> ss \<noteq> [] \<and> NaN \<notin> set (map depth ss)"
  let ?ds = "map depth ss"
  have rs: "map (\<lambda>s. py_round2 (depth s)) ss = map py_round2 ?ds"
    by simp
  from h have "?ds \<noteq> []" and "NaN \<notin> set ?ds"
    by simp_all
  from py_max_rounded [OF this] obtain M m
    where pm: "py_max (map py_round2 ?ds) = Inr m"
      and MM: "is_maximum_of M ?ds" and mr: "m = py_round2 M"
    by blast
  have scan: "scan_status (map Status ss) ([], []) =
      Inr (map py_round2 ?ds, map mission_mode ss)"
    by (simp add: scan_status_map)
  from h obtain s0 rest where ss: "ss = s0 # rest"
    by (cases ss) auto
  have first: "first_status (map Status ss) tg =
      Inr (AList.update ''mission state'' (TBool (in_mission s0)) tg)" for tg
    by (simp add: first_status_def ss)
  from h have "messages (content b) \<noteq> []"
    by (auto simp: read_messages_def ss)
  then obtain date where dt: "identify_date e b = Inr date"
    using identify_date_returns by blast
  have gen: "\<exists>tgs'. generate_tags e b = Inr tgs' \<and> map_of tgs' ''max depth'' = Some (TNum m)"
    using h dt
    by (simp add: generate_tags_def Let_def first scan pm update_conv' del: map_map)
  have "rounded_value M m"
    unfolding mr by (rule py_round2_rounded)
  with gen MM show "\<exists>tgs' M m. generate_tags e b = Inr tgs' \<and>
      map_of tgs' ''max depth'' = Some (TNum m) \<and>
      is_maximum_of M (map depth ss) \<and> rounded_value M m"
    by blast
qed

theorem generate_tags_year_and_max_depth_witness:
  "generate_tags env_ok b_named = Inr tags_named \<and>
   (\<exists>d. map_of tags_named ''date/time'' = Some (TStr d) \<and>
        map_of tags_named ''year'' = Some (TStr (take 4 d))) \<and>
   2 \<le> length (filename b_named) \<and>
   2 \<le> length (split_on CHR ''_'' (last (filename b_named))) \<and>
   split_on CHR ''_'' (last (filename b_named)) ! 0 = ''remus'' \<and>
   read_messages b_named ''/status'' = map Status [sample_a, sample_b] \<and>
   [sample_a, sample_b] \<noteq> [] \<and>
   NaN \<notin> set (map depth [sample_a, sample_b]) \<and>
   (\<exists>tgs' M m. generate_tags env_ok b_named = Inr tgs' \<and>
      map_of tgs' ''max depth'' = Some (TNum m) \<and>
      is_maximum_of M (map depth [sample_a, sample_b]) \<and> rounded_value M m) \<and>
   map_of tags_named ''max depth'' = Some (TNum (Finite (9 / 4))) \<and>
   is_maximum_of (Finite (9 / 4)) (map depth [sample_a, sample_b]) \<and>
   rounded_value (Finite (9 / 4)) (Finite (9 / 4)) \<and>
   py_round2 (depth sample_a) = Finite (28 / 25) \<and>
   rounded_value (depth sample_a) (Finite (28 / 25)) \<and>
   2 \<le> length (filename b_buoy) \<and>
   2 \<le> length (split_on CHR ''_'' (last (filename b_buoy))) \<and>
   split_on CHR ''_'' (last (filename b_buoy)) ! 0 \<noteq> ''remus'' \<and>
   messages (content b_buoy) \<noteq> [] \<and>
   (\<exists>tgs'. generate_tags env_ok b_buoy = Inr tgs')"
proof -
  have g: "generate_tags env_ok b_named = Inr tags_named"
    by code_simp
  have h: "2 \<le> length (filename b_named) \<and>
      2 \<le> length (split_on CHR ''_'' (last (filename b_named))) \<and>
      split_on CHR ''_'' (last (filename b_named)) ! 0 = ''remus'' \<and>
      read_messages b_named ''/status'' = map Status [sample_a, sample_b] \<and>
      [sample_a, sample_b] \<noteq> [] \<and>
      NaN \<notin> set (map depth [sample_a, sample_b])"
    by code_simp
  have v: "map_of tags_named ''max depth'' = Some (TNum (Finite (9 / 4))) \<and>
      is_maximum_of (Finite (9 / 4)) (map depth [sample_a, sample_b]) \<and>
      rounded_value (Finite (9 / 4)) (Finite (9 / 4)) \<and>
      py_round2 (depth sample_a) = Finite (28 / 25) \<and>
      rounded_value (depth sample_a) (Finite (28 / 25))"
    by code_simp
  have k: "2 \<le> length (filename b_buoy) \<and>
      2 \<le> length (split_on CHR ''_'' (last (filename b_buoy))) \<and>
      split_on CHR ''_'' (last (filename b_buoy)) ! 0 \<noteq> ''remus'' \<and>
      messages (content b_buoy) \<noteq> []"
    by code_simp
  have c1: "\<exists>d. map_of tags_named ''date/time'' = Some (TStr d) \<and>
      map_of tags_named ''year'' = Some (TStr (take 4 d))"
    by (rule generate_tags_year_and_max_depth [of env_ok b_named tags_named,
          THEN conjunct1, THEN mp, OF g])
  have c2: "\<exists>tgs' M m. generate_tags env_ok b_named = Inr tgs' \<and>
      map_of tgs' ''max depth'' = Some (TNum m) \<and>
      is_maximum_of M (map depth [sample_a, sample_b]) \<and> rounded_value M m"
    by (rule generate_tags_year_and_max_depth [of env_ok b_named _ "[sample_a, sample_b]",
          THEN conjunct2, THEN conjunct1, THEN mp, OF h])
  have c3: "\<exists>tgs'. generate_tags env_ok b_buoy = Inr tgs'"
    by (rule generate_tags_year_and_max_depth [of env_ok b_buoy,
          THEN conjunct2, THEN conjunct2, THEN mp, OF k])
  from g c1 h c2 v k c3 show ?thesis
    by (intro conjI) (erule conjunct1 conjunct2 | assumption | elim conjE)+
qed

subsection \<open>Tag publisher\<close>

text \<open>
  What \<open>tag_this_bag\<close> writes for a recording that holds a record: one record on
  \<open>/metadata\<close> whose data is \<open>tag_data\<close> and whose stamp is the whole seconds of the
  end time, with zero nanoseconds. The fractional part of the end time, a number
  below one, is handed over as the nanoseconds and truncated to zero.
\<close>

lemma tag_this_bag_record:
  assumes "messages (content b) \<noteq> []" and "0 \<le> end_time (content b)"
  shows "tag_this_bag e b tgs w =
    Inr (emit (Wrote (filename b) ''/metadata'' (tag_data e tgs)
                 \<lparr>secs = \<lfloor>end_time (content b)\<rfloor>, nsecs = 0\<rparr>) w)"
proof -
  have "0 \<le> end_time (content b) - of_int \<lfloor>end_time (content b)\<rfloor>"
    and "end_time (content b) - of_int \<lfloor>end_time (content b)\<rfloor> < 1"
    by linarith+
  then have "py_int (end_time (content b) - of_int \<lfloor>end_time (content b)\<rfloor>) = 0"
    by (simp add: py_int_def floor_eq_iff)
  moreover have "py_int (of_int \<lfloor>end_time (content b)\<rfloor>) = \<lfloor>end_time (content b)\<rfloor>"
    using assms(2) by (simp add: py_int_def)
  moreover have "0 \<le> \<lfloor>end_time (content b)\<rfloor>"
    using assms(2) by simp
  ultimately show ?thesis
    using assms(1)
    by (simp add: tag_this_bag_def get_end_time_def divmod1_def Time_def bag_write_def Let_def)
qed

text \<open>
  Claim C8 says that the record is stamped with the end time of the recording. For
  the example recording, which ends at 10.5 s, \<open>tag_this_bag\<close> appends one record on
  \<open>/metadata\<close> with the tags as text, and stamps it 10 s and 0 ns: not the end time,
  and earlier than the start of the recording at 10.25 s.
\<close>

theorem tag_this_bag_stamp_truncated:
  "map_sum id trace (tag_this_bag env_ok b_named tags_named w_named) =
     Inr [Wrote p_named ''/metadata'' (tag_data env_ok tags_named) \<lparr>secs = 10, nsecs = 0\<rparr>] \<and>
   end_time (content b_named) = 21 / 2 \<and>
   to_sec \<lparr>secs = 10, nsecs = 0\<rparr> = 10 \<and>
   to_sec \<lparr>secs = 10, nsecs = 0\<rparr> < start_time (content b_named)"
  by code_simp

section \<open>Properties of the driver\<close>

lemma fs_emit [simp]: "fs (emit ev w) = fs w"
  by (simp add: emit_def)

lemma trace_emit [simp]: "trace (emit ev w) = trace w @ [ev]"
  by (simp add: emit_def)

lemma open_bag_present:
  "map_of files p = Some (Recording r) \<Longrightarrow> open_bag files p = Inr \<lparr>filename = p, content = r\<rparr>"
  by (simp add: open_bag_def)

lemma open_bag_filename: "open_bag files p = Inr b \<Longrightarrow> filename b = p"
  by (auto simp: open_bag_def split: option.splits bagfile.splits)

lemma rename_file_present:
  assumes "map_of (fs w) src = Some f"
  shows "\<exists>w'. rename_file src dst w = Inr w' \<and>
           map_of (fs w') = ((map_of (fs w))(src := None))(dst \<mapsto> f) \<and>
           trace w' = trace w @ [Renamed src dst]"
  using assms by (simp add: rename_file_def update_conv' delete_conv')

text \<open>The buffer of a bag, one event at a time.\<close>

lemma pending_snoc: "pending p (evs @ [ev]) = pending_step p (pending p evs) ev"
  by (simp add: pending_def)

lemma pending_opened: "pending p (evs @ [OpenedAppend p]) = []"
  by (simp add: pending_snoc pending_step_def)

lemma pending_opened_log: "pending p (evs @ [OpenedAppend p, Log l]) = []"
  using pending_snoc [of p "evs @ [OpenedAppend p]" "Log l"]
  by (simp add: pending_opened pending_step_def)

lemma pending_opened_wrote:
  "pending p (evs @ [OpenedAppend p, Wrote p topic d t]) = [(topic, StringMsg d, t)]"
  using pending_snoc [of p "evs @ [OpenedAppend p]" "Wrote p topic d t"]
  by (simp add: pending_opened pending_step_def)

text \<open>Closing a bag to which one record was written puts that record into the file.\<close>

lemma bag_close_flushes_record:
  assumes "flush_error e (filename b) = None"
  shows "bag_close e b (emit (Wrote (filename b) topic d t) (emit (OpenedAppend (filename b)) w)) =
    (Inr (),
     emit (Closed (filename b))
       ((emit (Wrote (filename b) topic d t) (emit (OpenedAppend (filename b)) w))
          \<lparr>fs := AList.update (filename b)
                   (Recording (flushed (content b) [(topic, StringMsg d, t)])) (fs w)\<rparr>))"
  using assms pending_opened_wrote [of "filename b" "trace w" topic d t]
  by (simp add: bag_close_def Let_def)

text \<open>
  The renamer returns for a recording that is there and readable and that, if it
  needs renaming, holds a record; the recording is then at the returned path, and the
  trace has gained the renaming if there was one.
\<close>

lemma standard_rename_present:
  assumes "map_of (fs w) p = Some (Recording r)"
    and "is_rename_necessary (path_name p) \<longrightarrow> messages r \<noteq> []"
  shows "\<exists>p' w1 ren. standard_rename e p w = (Inr (eligible (fs w) p, p'), w1) \<and>
           map_of (fs w1) p' = Some (Recording r) \<and>
           trace w1 = trace w @ ren \<and>
           (\<not> is_rename_necessary (path_name p) \<and> ren = [] \<and> p' = p \<or>
            is_rename_necessary (path_name p) \<and> ren = [Renamed p p'])"
proof (cases "is_rename_necessary (path_name p)")
  case False
  then have "standard_rename e p w = (Inr (eligible (fs w) p, p), w)"
    by (simp add: standard_rename_def eligible_def)
  with assms(1) False show ?thesis
    by auto
next
  case True
  let ?b = "\<lparr>filename = p, content = r\<rparr>"
  have ob: "open_bag (fs w) p = Inr ?b"
    using assms(1) by (rule open_bag_present)
  then obtain source status where ids: "identify_source (fs w) p = Inr (source, status)"
    using identify_source_returns by blast
  from True assms(2) have "messages (content ?b) \<noteq> []"
    by simp
  then obtain date where dt: "identify_date e ?b = Inr date"
    using identify_date_returns by blast
  define newpath where "newpath = parent p @ [source @ ''_'' @ date @ ''.bag'']"
  obtain w' where rn: "rename_file p newpath w = Inr w'"
    and m': "map_of (fs w') = ((map_of (fs w))(p := None))(newpath \<mapsto> Recording r)"
    and t': "trace w' = trace w @ [Renamed p newpath]"
    using rename_file_present [OF assms(1)] by blast
  have st: "status \<in> {0, 1, 2}"
    using ids by (rule identify_source_status)
  have "eligible (fs w) p = (status = 1)"
    using True ids by (simp add: eligible_def)
  with st have "standard_rename e p w = (Inr (eligible (fs w) p, newpath), w')"
    using True ob ids dt rn by (auto simp: standard_rename_def Let_def newpath_def)
  moreover have "map_of (fs w') newpath = Some (Recording r)"
    by (simp add: m')
  ultimately show ?thesis
    using t' True by blast
qed

text \<open>What publishing leaves in the state: one call of \<^verbatim>\<open>bag.write\<close>.\<close>

lemma tag_this_bag_world:
  "tag_this_bag e b tgs w = Inr w' \<Longrightarrow>
     \<exists>t. w' = emit (Wrote (filename b) ''/metadata'' (tag_data e tgs) t) w"
  by (auto simp: tag_this_bag_def bag_write_def Let_def divmod1_def
           split: sum.splits)

lemma tag_block_world:
  "tag_block e b w = Inr w' \<Longrightarrow> \<exists>d t. w' = emit (Wrote (filename b) ''/metadata'' d t) w"
proof -
  assume a: "tag_block e b w = Inr w'"
  then obtain tgs where "tag_this_bag e b tgs w = Inr w'"
    by (auto simp: tag_block_def split: sum.splits)
  from tag_this_bag_world [OF this] show ?thesis
    by blast
qed

lemma tag_block_raises_anywhere:
  "tag_block e b w = Inl x \<Longrightarrow> tag_block e b w' = Inl x"
  by (auto simp: tag_block_def tag_this_bag_def Let_def divmod1_def split: sum.splits)

text \<open>
  The iteration when generating or publishing the tags raises: nothing is in the
  buffer, so the handler's close succeeds.
\<close>

lemma process_bag_tag_failure:
  assumes "p \<noteq> []" and "last p \<noteq> post_folder"
    and "standard_rename e p (emit (Log (LogProcessing (path_name p) i net)) w) =
           (Inr (True, p'), w1)"
    and "open_bag (fs w1) p' = Inr b"
    and "tag_block e b (emit (OpenedAppend p') w1) = Inl x"
  shows "process_bag e csrf i net p w =
           (Inr (), w1\<lparr>trace := trace w1 @ [OpenedAppend p', Log (LogTagError x), Closed p']\<rparr>)"
proof -
  have fn: "filename b = p'"
    using assms(4) by (rule open_bag_filename)
  have tb: "try_body e b (emit (OpenedAppend p') w1) = (Inl x, emit (OpenedAppend p') w1)"
    using assms(5) by (simp add: try_body_def)
  have cl: "bag_close e b (emit (Log (LogTagError x)) (emit (OpenedAppend p') w1)) =
      (Inr (), emit (Closed p') (emit (Log (LogTagError x)) (emit (OpenedAppend p') w1)))"
    by (simp add: bag_close_def fn pending_opened_log)
  show ?thesis
    using assms(1-4) tb cl by (simp add: process_bag_def Let_def emit_def)
qed

text \<open>
  The guard of the loop compares the last part of the path, the file's own name, with
  the name of the folder of uploaded recordings. A path of the scan ends in \<^verbatim>\<open>.bag\<close>,
  so the guard lets every scanned path through.
\<close>

lemma scan_guard_never_fires:
  "p \<in> set (glob_bags r d files) \<Longrightarrow> p \<noteq> [] \<and> last p \<noteq> post_folder"
  by (auto simp: glob_bags_def post_folder_def ends_with_def)

subsection \<open>Failures while tagging\<close>

lemma split_on_nonempty: "split_on c s \<noteq> []"
  by (induction s) (auto split: list.splits)

lemma split_on_single: "length (split_on c s) < 2 \<Longrightarrow> split_on c s = [s]"
proof (induction s)
  case Nil
  then show ?case by simp
next
  case (Cons x xs)
  show ?case
  proof (cases "x = c")
    case True
    with Cons.prems split_on_nonempty [of c xs] show ?thesis
      by (cases "split_on c xs") auto
  next
    case False
    with Cons show ?thesis
      by (cases "split_on c xs") auto
  qed
qed

lemma remus_bag_segments:
  assumes "ends_with n ''.bag''" and "split_on CHR ''_'' n ! 0 = ''remus''"
  shows "2 \<le> length (split_on CHR ''_'' n)"
proof (rule ccontr)
  assume "\<not> 2 \<le> length (split_on CHR ''_'' n)"
  then have "split_on CHR ''_'' n = [n]"
    by (intro split_on_single) simp
  with assms(2) have "n = ''remus''"
    by simp
  with assms(1) show False
    by (simp add: ends_with_def)
qed

lemma generate_tags_no_status:
  assumes "2 \<le> length (filename b)" and "2 \<le> length (split_on CHR ''_'' (last (filename b)))"
    and "split_on CHR ''_'' (last (filename b)) ! 0 = ''remus''"
    and "read_messages b ''/status'' = []"
  shows "generate_tags e b =
           Inl (if messages (content b) = [] then ROSBagException else ValueError)"
proof (cases "messages (content b) = []")
  case True
  then have "identify_date e b = Inl ROSBagException"
    by (rule identify_date_empty)
  with assms True show ?thesis
    by (simp add: generate_tags_def Let_def)
next
  case False
  then obtain date where "identify_date e b = Inr date"
    using identify_date_returns by blast
  with assms False show ?thesis
    by (simp add: generate_tags_def Let_def first_status_def py_max_def)
qed

text \<open>
  Claim C10. A recording that the renamer let through, whose name ends in \<^verbatim>\<open>.bag\<close>
  and has \<open>remus\<close> as first segment, and whose status channel is empty: tag generation
  raises, and the driver logs the exception, closes the bag and ends the iteration with
  no write, no POST and no move. The exception is \<^verbatim>\<open>ValueError\<close> (the maximum of no
  depth) when the recording holds a record on another channel, and the library's
  \<^verbatim>\<open>ROSBagException\<close>, raised earlier by the reading of the start time, when it holds
  no record at all.
\<close>

theorem remus_without_status_is_skipped:
  assumes "p \<noteq> []" and "last p \<noteq> post_folder"
    and "standard_rename e p (emit (Log (LogProcessing (path_name p) i net)) w) =
           (Inr (True, p'), w1)"
    and "open_bag (fs w1) p' = Inr b"
    and "2 \<le> length p'" and "ends_with (last p') ''.bag''"
    and "split_on CHR ''_'' (last p') ! 0 = ''remus''"
    and "read_messages b ''/status'' = []"
  shows "generate_tags e b =
           Inl (if messages (content b) = [] then ROSBagException else ValueError) \<and>
         process_bag e csrf i net p w =
           (Inr (), w1\<lparr>trace := trace w1 @
              [OpenedAppend p',
               Log (LogTagError (if messages (content b) = [] then ROSBagException
                                 else ValueError)),
               Closed p']\<rparr>)"
proof -
  let ?x = "if messages (content b) = [] then ROSBagException else ValueError"
  have fn: "filename b = p'"
    using assms(4) by (rule open_bag_filename)
  have "2 \<le> length (split_on CHR ''_'' (last p'))"
    using assms(6,7) by (rule remus_bag_segments)
  with fn assms(5,7,8) have gt: "generate_tags e b = Inl ?x"
    by (intro generate_tags_no_status) simp_all
  then have "tag_block e b (emit (OpenedAppend p') w1) = Inl ?x"
    by (simp add: tag_block_def)
  with assms(1-4) have "process_bag e csrf i net p w =
      (Inr (), w1\<lparr>trace := trace w1 @ [OpenedAppend p', Log (LogTagError ?x), Closed p']\<rparr>)"
    by (rule process_bag_tag_failure)
  with gt show ?thesis
    by (rule conjI)
qed

theorem remus_without_status_is_skipped_witness:
  "p_named \<noteq> [] \<and> last p_named \<noteq> post_folder \<and>
   standard_rename env_ok p_named
       (emit (Log (LogProcessing (path_name p_named) 1 1)) w_no_status) =
     (Inr (True, p_named), emit (Log (LogProcessing (path_name p_named) 1 1)) w_no_status) \<and>
   open_bag (fs (emit (Log (LogProcessing (path_name p_named) 1 1)) w_no_status)) p_named =
     Inr \<lparr>filename = p_named, content = rec_no_status\<rparr> \<and>
   2 \<le> length p_named \<and> ends_with (last p_named) ''.bag'' \<and>
   split_on CHR ''_'' (last p_named) ! 0 = ''remus'' \<and>
   read_messages \<lparr>filename = p_named, content = rec_no_status\<rparr> ''/status'' = [] \<and>
   generate_tags env_ok \<lparr>filename = p_named, content = rec_no_status\<rparr> = Inl ValueError \<and>
   process_bag env_ok ''token'' 1 1 p_named w_no_status =
     (Inr (),
      \<lparr>fs = fs w_no_status,
       trace = [Log (LogProcessing ''remus_shadow_2024-1-5-3-4-9-4.bag'' 1 1),
                OpenedAppend p_named, Log (LogTagError ValueError), Closed p_named]\<rparr>) \<and>
   standard_rename env_ok p_named
       (emit (Log (LogProcessing (path_name p_named) 1 1)) w_named_empty) =
     (Inr (True, p_named), emit (Log (LogProcessing (path_name p_named) 1 1)) w_named_empty) \<and>
   open_bag (fs (emit (Log (LogProcessing (path_name p_named) 1 1)) w_named_empty)) p_named =
     Inr \<lparr>filename = p_named, content = rec_empty\<rparr> \<and>
   read_messages \<lparr>filename = p_named, content = rec_empty\<rparr> ''/status'' = [] \<and>
   generate_tags env_ok \<lparr>filename = p_named, content = rec_empty\<rparr> = Inl ROSBagException \<and>
   process_bag env_ok ''token'' 1 1 p_named w_named_empty =
     (Inr (),
      \<lparr>fs = fs w_named_empty,
       trace = [Log (LogProcessing ''remus_shadow_2024-1-5-3-4-9-4.bag'' 1 1),
                OpenedAppend p_named, Log (LogTagError ROSBagException), Closed p_named]\<rparr>)"
proof -
  let ?w1 = "emit (Log (LogProcessing (path_name p_named) 1 1)) w_no_status"
  let ?b = "\<lparr>filename = p_named, content = rec_no_status\<rparr>"
  let ?w1' = "emit (Log (LogProcessing (path_name p_named) 1 1)) w_named_empty"
  let ?b' = "\<lparr>filename = p_named, content = rec_empty\<rparr>"
  have h1: "p_named \<noteq> []" and h2: "last p_named \<noteq> post_folder"
    by code_simp+
  have h3: "standard_rename env_ok p_named ?w1 = (Inr (True, p_named), ?w1)"
    by code_simp
  have h4: "open_bag (fs ?w1) p_named = Inr ?b"
    by code_simp
  have h5: "2 \<le> length p_named" and h6: "ends_with (last p_named) ''.bag''"
    and h7: "split_on CHR ''_'' (last p_named) ! 0 = ''remus''"
    and h8: "read_messages ?b ''/status'' = []"
    by code_simp+
  have k3: "standard_rename env_ok p_named ?w1' = (Inr (True, p_named), ?w1')"
    by code_simp
  have k4: "open_bag (fs ?w1') p_named = Inr ?b'"
    by code_simp
  have k8: "read_messages ?b' ''/status'' = []"
    by code_simp
  have x: "(if messages (content ?b) = [] then ROSBagException else ValueError) = ValueError"
    by code_simp
  have x': "(if messages (content ?b') = [] then ROSBagException else ValueError) =
      ROSBagException"
    by code_simp
  have v: "?w1\<lparr>trace := trace ?w1 @
        [OpenedAppend p_named, Log (LogTagError ValueError), Closed p_named]\<rparr>
      = \<lparr>fs = fs w_no_status,
         trace = [Log (LogProcessing ''remus_shadow_2024-1-5-3-4-9-4.bag'' 1 1),
                  OpenedAppend p_named, Log (LogTagError ValueError), Closed p_named]\<rparr>"
    by code_simp
  have v': "?w1'\<lparr>trace := trace ?w1' @
        [OpenedAppend p_named, Log (LogTagError ROSBagException), Closed p_named]\<rparr>
      = \<lparr>fs = fs w_named_empty,
         trace = [Log (LogProcessing ''remus_shadow_2024-1-5-3-4-9-4.bag'' 1 1),
                  OpenedAppend p_named, Log (LogTagError ROSBagException), Closed p_named]\<rparr>"
    by code_simp
  have c: "generate_tags env_ok ?b = Inl ValueError \<and>
      process_bag env_ok ''token'' 1 1 p_named w_no_status =
        (Inr (), ?w1\<lparr>trace := trace ?w1 @
           [OpenedAppend p_named, Log (LogTagError ValueError), Closed p_named]\<rparr>)"
    using remus_without_status_is_skipped [OF h1 h2 h3 h4 h5 h6 h7 h8, of "''token''"]
    unfolding x .
  have c': "generate_tags env_ok ?b' = Inl ROSBagException \<and>
      process_bag env_ok ''token'' 1 1 p_named w_named_empty =
        (Inr (), ?w1'\<lparr>trace := trace ?w1' @
           [OpenedAppend p_named, Log (LogTagError ROSBagException), Closed p_named]\<rparr>)"
    using remus_without_status_is_skipped [OF h1 h2 k3 k4 h5 h6 h7 k8, of "''token''"]
    unfolding x' .
  from h1 h2 h3 h4 h5 h6 h7 h8 c k3 k4 k8 c' show ?thesis
    unfolding v v' by (intro conjI) (erule conjunct1 conjunct2 | assumption)+
qed

subsection \<open>A failure while the records are flushed\<close>

text \<open>
  Claim C7 says that an exception raised while publishing is contained: the bag is
  closed and the exception does not leave the loop. When the backing store cannot take
  the record, the exception is raised by the close inside the \<^verbatim>\<open>try\<close> statement; the
  handler logs it and closes the bag again, and the same exception, raised again by
  that second close, leaves the loop. The bag is never closed and the second recording
  of the batch is never looked at.
\<close>

theorem flush_failure_leaves_the_loop:
  "generate_tags env_full b_named = Inr tags_named \<and>
   process_bag env_full ''token'' 1 2 p_named w_two =
     (Inl IOError,
      w_two\<lparr>trace :=
        [Log (LogProcessing ''remus_shadow_2024-1-5-3-4-9-4.bag'' 1 2),
         OpenedAppend p_named,
         Wrote p_named ''/metadata'' (tag_data env_full tags_named) \<lparr>secs = 10, nsecs = 0\<rparr>,
         Log (LogTagError IOError)]\<rparr>) \<and>
   process_bags env_full w_two = process_bag env_full ''token'' 1 2 p_named w_two"
  by code_simp

subsection \<open>Failures outside the try statement\<close>

text \<open>
  Claim C3 says that only the failure to obtain the token ends the run. With the token
  obtained, an exception of the transport during the POST of the first of two
  recordings ends the run before the second is looked at; so does an unreadable file
  met by the renamer.
\<close>

theorem transport_exception_ends_batch:
  "fetch_token env_down = Inr ''token'' \<and>
   fst (process_bags env_down w_two) = Inl RequestException \<and>
   trace (snd (process_bags env_down w_two)) =
     [Log (LogProcessing ''remus_shadow_2024-1-5-3-4-9-4.bag'' 1 2),
      OpenedAppend p_named,
      Wrote p_named ''/metadata'' (tag_data env_down tags_named) \<lparr>secs = 10, nsecs = 0\<rparr>,
      Closed p_named,
      Posted p_named] \<and>
   fetch_token env_ok = Inr ''token'' \<and>
   process_bags env_ok w_broken =
     (Inl ROSBagException, w_broken\<lparr>trace := [Log (LogProcessing ''dive.bag'' 1 2)]\<rparr>)"
  by code_simp

text \<open>
  Claim C3, amended. Take a recording that is there and readable and that, if its name
  needs renaming, holds at least one record; a backing store that takes the flushed
  records; and a transport that answers every POST with a status. Then the iteration
  ends normally with exactly one logged outcome, and the loop goes on with the next
  recording. The outcome is: ignored, when the last part of the path is the folder
  name; skipped as unsafe, when the renamer's verdict is negative; the exception of tag
  generation or publishing, logged before the bag is closed; the status of the POST,
  when it is not 200, with the file left where it is; or the successful upload,
  followed by the move into the folder of uploaded recordings. An exception that
  leaves the iteration leaves the loop, and the failure to obtain the token ends the
  run with nothing changed.
\<close>

theorem tagging_and_status_failures_are_not_fatal:
  "(p \<noteq> [] \<and> map_of (fs w) p = Some (Recording r) \<and>
    (is_rename_necessary (path_name p) \<longrightarrow> messages r \<noteq> []) \<and>
    (\<forall>q. flush_error e q = None) \<and>
    (\<forall>csrf' q f. \<exists>code. post e csrf' q f = Inr code) \<longrightarrow>
      (\<exists>w' p' ren tail.
         process_bag e csrf i net p w = (Inr (), w') \<and>
         process_loop e csrf i net (p # rest) w = process_loop e csrf (i + 1) net rest w' \<and>
         trace w' = trace w @ [Log (LogProcessing (path_name p) i net)] @ ren @ tail \<and>
         (last p = post_folder \<and> ren = [] \<and>
            tail = [Log (LogIgnoring (path_name p) (parent p))] \<or>
          last p \<noteq> post_folder \<and>
          (\<not> is_rename_necessary (path_name p) \<and> ren = [] \<and> p' = p \<or>
           is_rename_necessary (path_name p) \<and> ren = [Renamed p p']) \<and>
          (\<not> eligible (fs w) p \<and> tail = [Log (LogSkipUnsafe (path_name p'))] \<or>
           eligible (fs w) p \<and>
           ((\<exists>x. tag_block e \<lparr>filename = p', content = r\<rparr> w = Inl x \<and>
                 tail = [OpenedAppend p', Log (LogTagError x), Closed p']) \<or>
            (\<exists>d t code.
                 post e csrf p' (Recording (flushed r [(''/metadata'', StringMsg d, t)])) =
                   Inr code \<and>
                 str_nat code \<noteq> ''200'' \<and>
                 tail = [OpenedAppend p', Wrote p' ''/metadata'' d t, Closed p', Posted p',
                         Log (LogPostFailed (str_nat code))]) \<or>
            (\<exists>d t code.
                 post e csrf p' (Recording (flushed r [(''/metadata'', StringMsg d, t)])) =
                   Inr code \<and>
                 str_nat code = ''200'' \<and>
                 tail = [OpenedAppend p', Wrote p' ''/metadata'' d t, Closed p', Posted p',
                         Log LogUploadOk, Mkdir (parent p' @ [post_folder]),
                         Renamed p' (parent p' @ [post_folder, path_name p'])])))))) \<and>
   (process_bag e csrf i net p w = (Inl x, w1) \<longrightarrow>
      process_loop e csrf i net (p # rest) w = (Inl x, w1)) \<and>
   (fetch_token e = Inl x \<longrightarrow> process_bags e w = (Inl x, w))"
proof (intro conjI impI)
  assume "process_bag e csrf i net p w = (Inl x, w1)"
  then show "process_loop e csrf i net (p # rest) w = (Inl x, w1)"
    by simp
next
  assume "fetch_token e = Inl x"
  then show "process_bags e w = (Inl x, w)"
    by (simp add: process_bags_def)
next
  assume h: "p \<noteq> [] \<and> map_of (fs w) p = Some (Recording r) \<and>
    (is_rename_necessary (path_name p) \<longrightarrow> messages r \<noteq> []) \<and>
    (\<forall>q. flush_error e q = None) \<and>
    (\<forall>csrf' q f. \<exists>code. post e csrf' q f = Inr code)"
  let ?shape = "\<lambda>w' p' ren tail.
         trace w' = trace w @ [Log (LogProcessing (path_name p) i net)] @ ren @ tail \<and>
         (last p = post_folder \<and> ren = [] \<and>
            tail = [Log (LogIgnoring (path_name p) (parent p))] \<or>
          last p \<noteq> post_folder \<and>
          (\<not> is_rename_necessary (path_name p) \<and> ren = [] \<and> p' = p \<or>
           is_rename_necessary (path_name p) \<and> ren = [Renamed p p']) \<and>
          (\<not> eligible (fs w) p \<and> tail = [Log (LogSkipUnsafe (path_name p'))] \<or>
           eligible (fs w) p \<and>
           ((\<exists>x. tag_block e \<lparr>filename = p', content = r\<rparr> w = Inl x \<and>
                 tail = [OpenedAppend p', Log (LogTagError x), Closed p']) \<or>
            (\<exists>d t code.
                 post e csrf p' (Recording (flushed r [(''/metadata'', StringMsg d, t)])) =
                   Inr code \<and>
                 str_nat code \<noteq> ''200'' \<and>
                 tail = [OpenedAppend p', Wrote p' ''/metadata'' d t, Closed p', Posted p',
                         Log (LogPostFailed (str_nat code))]) \<or>
            (\<exists>d t code.
                 post e csrf p' (Recording (flushed r [(''/metadata'', StringMsg d, t)])) =
                   Inr code \<and>
                 str_nat code = ''200'' \<and>
                 tail = [OpenedAppend p', Wrote p' ''/metadata'' d t, Closed p', Posted p',
                         Log LogUploadOk, Mkdir (parent p' @ [post_folder]),
                         Renamed p' (parent p' @ [post_folder, path_name p'])]))))"
  let ?goal = "\<lambda>w' p' ren tail.
         process_bag e csrf i net p w = (Inr (), w') \<and> ?shape w' p' ren tail"
  have fin: "\<exists>w' p' ren tail.
         process_bag e csrf i net p w = (Inr (), w') \<and>
         process_loop e csrf i net (p # rest) w = process_loop e csrf (i + 1) net rest w' \<and>
         ?shape w' p' ren tail"
    if g: "?goal w' p' ren tail" for w' p' ren tail
  proof -
    from g have pb: "process_bag e csrf i net p w = (Inr (), w')"
      by (rule conjunct1)
    from g have shape: "?shape w' p' ren tail"
      by (rule conjunct2)
    from pb
    have pl: "process_loop e csrf i net (p # rest) w = process_loop e csrf (i + 1) net rest w'"
      by simp
    have "process_bag e csrf i net p w = (Inr (), w') \<and>
         process_loop e csrf i net (p # rest) w = process_loop e csrf (i + 1) net rest w' \<and>
         ?shape w' p' ren tail"
      by (rule conjI [OF pb conjI [OF pl shape]])
    then show ?thesis
      by (intro exI)
  qed
  show "\<exists>w' p' ren tail.
         process_bag e csrf i net p w = (Inr (), w') \<and>
         process_loop e csrf i net (p # rest) w = process_loop e csrf (i + 1) net rest w' \<and>
         trace w' = trace w @ [Log (LogProcessing (path_name p) i net)] @ ren @ tail \<and>
         (last p = post_folder \<and> ren = [] \<and>
            tail = [Log (LogIgnoring (path_name p) (parent p))] \<or>
          last p \<noteq> post_folder \<and>
          (\<not> is_rename_necessary (path_name p) \<and> ren = [] \<and> p' = p \<or>
           is_rename_necessary (path_name p) \<and> ren = [Renamed p p']) \<and>
          (\<not> eligible (fs w) p \<and> tail = [Log (LogSkipUnsafe (path_name p'))] \<or>
           eligible (fs w) p \<and>
           ((\<exists>x. tag_block e \<lparr>filename = p', content = r\<rparr> w = Inl x \<and>
                 tail = [OpenedAppend p', Log (LogTagError x), Closed p']) \<or>
            (\<exists>d t code.
                 post e csrf p' (Recording (flushed r [(''/metadata'', StringMsg d, t)])) =
                   Inr code \<and>
                 str_nat code \<noteq> ''200'' \<and>
                 tail = [OpenedAppend p', Wrote p' ''/metadata'' d t, Closed p', Posted p',
                         Log (LogPostFailed (str_nat code))]) \<or>
            (\<exists>d t code.
                 post e csrf p' (Recording (flushed r [(''/metadata'', StringMsg d, t)])) =
                   Inr code \<and>
                 str_nat code = ''200'' \<and>
                 tail = [OpenedAppend p', Wrote p' ''/metadata'' d t, Closed p', Posted p',
                         Log LogUploadOk, Mkdir (parent p' @ [post_folder]),
                         Renamed p' (parent p' @ [post_folder, path_name p'])]))))"
  proof (cases "last p \<noteq> post_folder")
    case False
    with h have "?goal (emit (Log (LogIgnoring (path_name p) (parent p)))
                     (emit (Log (LogProcessing (path_name p) i net)) w))
                   p [] [Log (LogIgnoring (path_name p) (parent p))]"
      by (simp add: process_bag_def Let_def)
    then show ?thesis
      by (rule fin)
  next
    case guard: True
    let ?w = "emit (Log (LogProcessing (path_name p) i net)) w"
    from h have "map_of (fs ?w) p = Some (Recording r)"
      by simp
    from standard_rename_present [OF this, of e] h
    obtain p' w1 ren where sr: "standard_rename e p ?w = (Inr (eligible (fs w) p, p'), w1)"
      and pres1: "map_of (fs w1) p' = Some (Recording r)"
      and tr1: "trace w1 = trace w @ [Log (LogProcessing (path_name p) i net)] @ ren"
      and ren: "\<not> is_rename_necessary (path_name p) \<and> ren = [] \<and> p' = p \<or>
                is_rename_necessary (path_name p) \<and> ren = [Renamed p p']"
      by auto
    show ?thesis
    proof (cases "eligible (fs w) p")
      case False
      with h guard sr tr1 ren
      have "?goal (emit (Log (LogSkipUnsafe (path_name p'))) w1) p' ren
              [Log (LogSkipUnsafe (path_name p'))]"
        by (simp add: process_bag_def Let_def)
      then show ?thesis
        by (rule fin)
    next
      case True
      let ?b = "\<lparr>filename = p', content = r\<rparr>"
      let ?w2 = "emit (OpenedAppend p') w1"
      have ob: "open_bag (fs w1) p' = Inr ?b"
        using pres1 by (rule open_bag_present)
      show ?thesis
      proof (cases "tag_block e ?b ?w2")
        case (Inl x)
        from h guard sr True ob Inl
        have "process_bag e csrf i net p w =
            (Inr (), w1\<lparr>trace := trace w1 @
               [OpenedAppend p', Log (LogTagError x), Closed p']\<rparr>)"
          by (intro process_bag_tag_failure) simp_all
        moreover have "tag_block e ?b w = Inl x"
          using Inl by (rule tag_block_raises_anywhere)
        ultimately
        have "?goal (w1\<lparr>trace := trace w1 @
               [OpenedAppend p', Log (LogTagError x), Closed p']\<rparr>) p' ren
              [OpenedAppend p', Log (LogTagError x), Closed p']"
          using tr1 ren guard True by simp
        then show ?thesis
          by (rule fin)
      next
        case (Inr w3)
        from tag_block_world [OF Inr] obtain d t
          where w3: "w3 = emit (Wrote p' ''/metadata'' d t) ?w2"
          by auto
        let ?r3 = "flushed r [(''/metadata'', StringMsg d, t)]"
        let ?w3c = "emit (Closed p')
            (w3\<lparr>fs := AList.update p' (Recording ?r3) (fs w3)\<rparr>)"
        have pend: "pending p' (trace w3) = [(''/metadata'', StringMsg d, t)]"
          unfolding w3 using pending_opened_wrote [of p' "trace w1" "''/metadata''" d t]
          by simp
        have cl: "bag_close e ?b w3 = (Inr (), ?w3c)"
          using h pend by (simp add: bag_close_def Let_def)
        have tb: "try_body e ?b ?w2 = (Inr (), ?w3c)"
          using Inr cl by (simp add: try_body_def)
        have pres3: "map_of (fs ?w3c) p' = Some (Recording ?r3)"
          by (simp add: update_conv')
        from h obtain code where pc: "post e csrf p' (Recording ?r3) = Inr code"
          by blast
        let ?w4 = "emit (Posted p') ?w3c"
        have pp: "prep_and_post e p' csrf ?w3c = (Inr (str_nat code), ?w4)"
          using pres3 pc by (simp add: prep_and_post_def)
        have tr4: "trace ?w4 = trace w @ [Log (LogProcessing (path_name p) i net)] @ ren @
            [OpenedAppend p', Wrote p' ''/metadata'' d t, Closed p', Posted p']"
          by (simp add: w3 tr1)
        show ?thesis
        proof (cases "str_nat code = ''200''")
          case False
          have pb: "process_bag e csrf i net p w =
              (Inr (), emit (Log (LogPostFailed (str_nat code))) ?w4)"
            using h guard sr True ob tb pp False by (simp add: process_bag_def Let_def)
          have "?goal (emit (Log (LogPostFailed (str_nat code))) ?w4) p' ren
              [OpenedAppend p', Wrote p' ''/metadata'' d t, Closed p', Posted p',
               Log (LogPostFailed (str_nat code))]"
            using pb tr4 ren False guard True pc by simp
          then show ?thesis
            by (rule fin)
        next
          case ok: True
          let ?w5 = "emit (Mkdir (parent p' @ [post_folder])) (emit (Log LogUploadOk) ?w4)"
          let ?dst = "parent p' @ [post_folder, path_name p']"
          have "map_of (fs ?w5) p' = Some (Recording ?r3)"
            by (simp add: update_conv')
          from rename_file_present [OF this, of ?dst]
          obtain w6 where rn: "rename_file p' ?dst ?w5 = Inr w6"
            and tr6: "trace w6 = trace ?w5 @ [Renamed p' ?dst]"
            by auto
          have pb: "process_bag e csrf i net p w = (Inr (), w6)"
            using h guard sr True ob tb pp ok rn by (simp add: process_bag_def Let_def)
          have "trace w6 = trace w @ [Log (LogProcessing (path_name p) i net)] @ ren @
              [OpenedAppend p', Wrote p' ''/metadata'' d t, Closed p', Posted p',
               Log LogUploadOk, Mkdir (parent p' @ [post_folder]), Renamed p' ?dst]"
            unfolding tr6 by (simp add: w3 tr1)
          with pb ren guard True pc ok have "?goal w6 p' ren
              [OpenedAppend p', Wrote p' ''/metadata'' d t, Closed p', Posted p',
               Log LogUploadOk, Mkdir (parent p' @ [post_folder]), Renamed p' ?dst]"
            by simp
          then show ?thesis
            by (rule fin)
        qed
      qed
    qed
  qed
qed

theorem tagging_and_status_failures_are_not_fatal_witness:
  "p_named \<noteq> [] \<and> map_of (fs w_no_status) p_named = Some (Recording rec_no_status) \<and>
   messages rec_no_status \<noteq> [] \<and>
   (\<forall>q. flush_error env_ok q = None) \<and>
   (\<forall>csrf' q f. \<exists>code. post env_ok csrf' q f = Inr code) \<and>
   (\<exists>w'. process_bag env_ok ''token'' 1 2 p_named w_no_status = (Inr (), w') \<and>
      process_loop env_ok ''token'' 1 2 [p_named, p_second] w_no_status =
        process_loop env_ok ''token'' (1 + 1) 2 [p_second] w') \<and>
   process_bag env_down ''token'' 1 2 p_named w_two =
     (Inl RequestException, snd (process_bag env_down ''token'' 1 2 p_named w_two)) \<and>
   process_loop env_down ''token'' 1 2 [p_named, p_second] w_two =
     (Inl RequestException, snd (process_bag env_down ''token'' 1 2 p_named w_two)) \<and>
   fetch_token env_locked = Inl RequestException \<and>
   process_bags env_locked w_two = (Inl RequestException, w_two)"
proof -
  have h1a: "p_named \<noteq> []"
    and h1b: "map_of (fs w_no_status) p_named = Some (Recording rec_no_status)"
    and h1d: "messages rec_no_status \<noteq> []"
    by code_simp+
  from h1d have h1c:
    "is_rename_necessary (path_name p_named) \<longrightarrow> messages rec_no_status \<noteq> []"
    by (rule impI)
  have h2: "\<forall>q. flush_error env_ok q = None"
    by (simp add: env_ok_def)
  have h3: "\<forall>csrf' q f. \<exists>code. post env_ok csrf' q f = Inr code"
    by (simp add: env_ok_def)
  have h4: "process_bag env_down ''token'' 1 2 p_named w_two =
      (Inl RequestException, snd (process_bag env_down ''token'' 1 2 p_named w_two))"
    by code_simp
  have h5: "fetch_token env_locked = Inl RequestException"
    by code_simp
  have "p_named \<noteq> [] \<and> map_of (fs w_no_status) p_named = Some (Recording rec_no_status) \<and>
      (is_rename_necessary (path_name p_named) \<longrightarrow> messages rec_no_status \<noteq> []) \<and>
      (\<forall>q. flush_error env_ok q = None) \<and>
      (\<forall>csrf' q f. \<exists>code. post env_ok csrf' q f = Inr code)"
    using h1a h1b h1c h2 h3 by (intro conjI)
  from tagging_and_status_failures_are_not_fatal [of p_named w_no_status rec_no_status env_ok
      "''token''" 1 2 "[p_second]", THEN conjunct1, THEN mp, OF this]
  obtain w' where "process_bag env_ok ''token'' 1 2 p_named w_no_status = (Inr (), w')"
    and "process_loop env_ok ''token'' 1 2 [p_named, p_second] w_no_status =
        process_loop env_ok ''token'' (1 + 1) 2 [p_second] w'"
    by (elim exE conjE)
  then have c1: "\<exists>w'. process_bag env_ok ''token'' 1 2 p_named w_no_status = (Inr (), w') \<and>
      process_loop env_ok ''token'' 1 2 [p_named, p_second] w_no_status =
        process_loop env_ok ''token'' (1 + 1) 2 [p_second] w'"
    by (intro exI conjI)
  have c2: "process_loop env_down ''token'' 1 2 [p_named, p_second] w_two =
      (Inl RequestException, snd (process_bag env_down ''token'' 1 2 p_named w_two))"
    by (rule tagging_and_status_failures_are_not_fatal [of p_named w_two _ env_down
        "''token''" 1 2 "[p_second]" RequestException
        "snd (process_bag env_down ''token'' 1 2 p_named w_two)",
        THEN conjunct2, THEN conjunct1, THEN mp, OF h4])
  have c3: "process_bags env_locked w_two = (Inl RequestException, w_two)"
    by (rule tagging_and_status_failures_are_not_fatal [of _ w_two _ env_locked _ _ _ _
        RequestException, THEN conjunct2, THEN conjunct2, THEN mp, OF h5])
  from h1a h1b h1d h2 h3 c1 h4 c2 h5 c3 show ?thesis
    by (intro conjI)
qed

subsection \<open>A second run\<close>

text \<open>
  Claim C1 says that a second run finds every archived recording in the folder of
  uploaded recordings and skips it. After a first recursive run has archived the
  example recording, the only file is in that folder; the second recursive run
  scans it, lets it through the guard, tags it again, uploads it again and moves it
  one folder deeper.
\<close>

theorem second_run_uploads_again:
  "map fst (fs w_after_first) = [p_uploaded] \<and>
   glob_bags (is_recursive env_ok) (cwd env_ok) (fs w_after_first) = [p_uploaded] \<and>
   process_bags env_ok w_after_first =
     (Inr (),
      \<lparr>fs = [(p_uploaded_twice,
              Recording (rec_remus
                \<lparr>end_time := 10,
                 msg_types := [''std_msgs/String'', ''ros_remus/Status''],
                 messages := messages rec_remus @
                   [(''/metadata'', StringMsg (tag_data env_ok tags_named),
                     \<lparr>secs = 10, nsecs = 0\<rparr>),
                    (''/metadata'', StringMsg (tag_data env_ok tags_named),
                     \<lparr>secs = 10, nsecs = 0\<rparr>)]\<rparr>))],
       trace =
        [Log (LogProcessing ''remus_shadow_2024-1-5-3-4-9-4.bag'' 1 1),
         OpenedAppend p_uploaded,
         Wrote p_uploaded ''/metadata'' (tag_data env_ok tags_named) \<lparr>secs = 10, nsecs = 0\<rparr>,
         Closed p_uploaded,
         Posted p_uploaded,
         Log LogUploadOk,
         Mkdir [''/'', ''data'', ''uploaded'', ''uploaded''],
         Renamed p_uploaded p_uploaded_twice]\<rparr>)"
  by code_simp

end
